theory Spec2Isabelle
  imports Main "HOL-Library.Sublist"
begin

section \<open>Values and exceptions\<close>

text \<open>
  The Python values that \<^verbatim>\<open>json.loads\<close> can return.  An object is an association
  list in insertion order, as a Python \<^verbatim>\<open>dict\<close> iterates; the text of a float is kept
  but never inspected, since the program never computes with one.
\<close>

datatype json =
    JNull
  | JBool bool
  | JInt int
  | JFloat string
  | JStr string
  | JArr "json list"
  | JObj "(string \<times> json) list"

text \<open>
  The exceptions the program can raise.  \<open>HTTPError\<close> and \<open>ProtectionPage\<close> are the two
  \<^verbatim>\<open>raise Exception(...)\<close> of \<^verbatim>\<open>fetch_dtek_page\<close>, \<open>FactNotFound\<close> the one of
  \<^verbatim>\<open>parse_schedule\<close>; \<open>RequestsError\<close> stands for whatever \<^verbatim>\<open>requests.get\<close> raises,
  \<open>DateError\<close> for what \<^verbatim>\<open>datetime.fromtimestamp\<close> raises and \<open>WriteError\<close> for a failure
  of \<^verbatim>\<open>open\<close> or \<^verbatim>\<open>json.dump\<close>.  The others carry the name of the Python exception.
\<close>

datatype error =
    RequestsError
  | HTTPError int
  | ProtectionPage
  | FactNotFound
  | JSONDecodeError
  | ValueError
  | TypeError
  | AttributeError
  | KeyError
  | DateError
  | WriteError

section \<open>Strings\<close>

text \<open>\<^verbatim>\<open>sub in s\<close> on strings: does \<open>sub\<close> start at some position of \<open>s\<close>?\<close>

fun str_contains :: "string \<Rightarrow> string \<Rightarrow> bool" where
  "str_contains sub [] = (sub = [])"
| "str_contains sub (c # cs) = (prefix sub (c # cs) \<or> str_contains sub cs)"

text \<open>The offset of the first position of \<open>s\<close> at which \<open>sub\<close> starts, if there is one.\<close>

fun find_sub :: "string \<Rightarrow> string \<Rightarrow> nat option" where
  "find_sub sub [] = (if sub = [] then Some 0 else None)"
| "find_sub sub (c # cs) =
     (if prefix sub (c # cs) then Some 0 else map_option Suc (find_sub sub cs))"

text \<open>
  A slice bound of Python: a negative bound counts from the end, and every bound is
  clamped to the length \<open>n\<close>.
\<close>

definition py_index :: "nat \<Rightarrow> int \<Rightarrow> nat" where
  "py_index n i = (if i < 0 then nat (max 0 (i + int n)) else min n (nat i))"

text \<open>\<^verbatim>\<open>s.find(sub, start)\<close>: the lowest index at or after \<open>start\<close>, or \<open>-1\<close>.\<close>

definition py_find :: "string \<Rightarrow> string \<Rightarrow> int \<Rightarrow> int" where
  "py_find s sub start =
     (if start > int (length s) then - 1
      else let st = py_index (length s) start in
        case find_sub sub (drop st s) of
          None \<Rightarrow> - 1
        | Some k \<Rightarrow> int (st + k))"

text \<open>\<^verbatim>\<open>s[a:]\<close> and \<^verbatim>\<open>s[a:b]\<close>.\<close>

definition py_slice_from :: "string \<Rightarrow> int \<Rightarrow> string" where
  "py_slice_from s a = drop (py_index (length s) a) s"

definition py_slice :: "string \<Rightarrow> int \<Rightarrow> int \<Rightarrow> string" where
  "py_slice s a b =
     (let lo = py_index (length s) a; hi = py_index (length s) b
      in take (hi - lo) (drop lo s))"

section \<open>\<^verbatim>\<open>parse_schedule\<close>: the two embedded objects\<close>

definition fact_marker :: string where
  "fact_marker = ''DisconSchedule.fact = {''"

definition preset_marker :: string where
  "preset_marker = ''DisconSchedule.preset = {''"

text \<open>
  The brace-counting loop, \<^verbatim>\<open>for i, char in enumerate(html[json_start:], start=json_start)\<close>,
  over the characters still to be read, the index \<open>i\<close> of the next one and the counter.
  \<open>Some (i + 1)\<close> is the \<^verbatim>\<open>break\<close>, with the end index the source computes there;
  \<open>None\<close> is the loop running off the end of the text.
\<close>

fun scan_braces :: "string \<Rightarrow> int \<Rightarrow> int \<Rightarrow> int option" where
  "scan_braces [] i brace_count = None"
| "scan_braces (char # rest) i brace_count =
     (if char = CHR ''{'' then scan_braces rest (i + 1) (brace_count + 1)
      else if char = CHR ''}'' then
        (if brace_count - 1 = 0 then Some (i + 1)
         else scan_braces rest (i + 1) (brace_count - 1))
      else scan_braces rest (i + 1) brace_count)"

text \<open>
  Lines 53 to 72: the value of \<^verbatim>\<open>fact_json_str\<close>, or the exception of line 55.  When the
  loop never breaks, \<^verbatim>\<open>json_end\<close> keeps its initial value \<^verbatim>\<open>json_start\<close>.
\<close>

definition extract_fact :: "string \<Rightarrow> error + string" where
  "extract_fact html =
     (let fact_start = py_find html fact_marker 0 in
      if fact_start = - 1 then Inl FactNotFound
      else
        let json_start = py_find html ''{'' fact_start;
            json_end = (case scan_braces (py_slice_from html json_start) json_start 0 of
                          Some e \<Rightarrow> e
                        | None \<Rightarrow> json_start)
        in Inr (py_slice html json_start json_end))"

text \<open>
  Lines 76 to 88: the value of \<^verbatim>\<open>preset_data\<close>.  It stays \<^verbatim>\<open>{}\<close> when the marker is
  absent and when the loop never breaks; \<^verbatim>\<open>json.loads\<close> is called at the
  \<^verbatim>\<open>break\<close> only, on \<^verbatim>\<open>html[json_start:i+1]\<close>.  \<open>loads\<close> is \<^verbatim>\<open>json.loads\<close>, with
  \<open>None\<close> for the exception it raises.
\<close>

definition extract_preset :: "(string \<Rightarrow> json option) \<Rightarrow> string \<Rightarrow> error + json" where
  "extract_preset loads html =
     (let preset_start = py_find html preset_marker 0 in
      if preset_start \<noteq> - 1 then
        let json_start = py_find html ''{'' preset_start in
        (case scan_braces (py_slice_from html json_start) json_start 0 of
           Some e \<Rightarrow>
             (case loads (py_slice html json_start e) of
                None \<Rightarrow> Inl JSONDecodeError
              | Some preset_data \<Rightarrow> Inr preset_data)
         | None \<Rightarrow> Inr (JObj []))
      else Inr (JObj []))"

record raw_data =
  fact :: json
  preset :: json
  fetched_at :: string

text \<open>\<open>now\<close> is the value of \<^verbatim>\<open>datetime.now().isoformat()\<close>.\<close>

definition parse_schedule ::
  "(string \<Rightarrow> json option) \<Rightarrow> string \<Rightarrow> string \<Rightarrow> error + raw_data" where
  "parse_schedule loads now html =
     (case extract_fact html of
        Inl e \<Rightarrow> Inl e
      | Inr fact_json_str \<Rightarrow>
          (case loads fact_json_str of
             None \<Rightarrow> Inl JSONDecodeError
           | Some fact_data \<Rightarrow>
               (case extract_preset loads html of
                  Inl e \<Rightarrow> Inl e
                | Inr preset_data \<Rightarrow>
                    Inr \<lparr>fact = fact_data, preset = preset_data, fetched_at = now\<rparr>)))"

section \<open>\<^verbatim>\<open>fetch_dtek_page\<close>\<close>

text \<open>
  The response of \<^verbatim>\<open>requests.get\<close>: the status code and the decoded text, one \<open>char\<close> for
  each character that \<^verbatim>\<open>len(response.text)\<close> counts.  The argument of \<open>fetch_dtek_page\<close> is
  the outcome of the request, an exception or a response.
\<close>

record response =
  status_code :: int
  resp_text :: string

definition fetch_dtek_page :: "error + response \<Rightarrow> error + string" where
  "fetch_dtek_page got =
     (case got of
        Inl e \<Rightarrow> Inl e
      | Inr response \<Rightarrow>
          if status_code response \<noteq> 200 then Inl (HTTPError (status_code response))
          else if length (resp_text response) < 1000
                  \<or> \<not> str_contains ''DisconSchedule'' (resp_text response)
            then Inl ProtectionPage
          else Inr (resp_text response))"

section \<open>Dictionaries and the operators applied to decoded values\<close>

text \<open>
  \<^verbatim>\<open>d[k] = v\<close>: an existing key keeps its place and gets the new value, a new key goes
  to the end.
\<close>

fun dict_set :: "'k \<Rightarrow> 'v \<Rightarrow> ('k \<times> 'v) list \<Rightarrow> ('k \<times> 'v) list" where
  "dict_set k v [] = [(k, v)]"
| "dict_set k v ((k', v') # d) =
     (if k' = k then (k, v) # d else (k', v') # dict_set k v d)"

text \<open>
  \<^verbatim>\<open>x in v\<close> for a string \<open>x\<close>: a key of a dict, an element of a list, a substring of a
  string; any other value is not iterable.
\<close>

fun py_in :: "string \<Rightarrow> json \<Rightarrow> error + bool" where
  "py_in x (JObj d) = Inr (map_of d x \<noteq> None)"
| "py_in x (JArr xs) = Inr (JStr x \<in> set xs)"
| "py_in x (JStr s) = Inr (str_contains x s)"
| "py_in x JNull = Inl TypeError"
| "py_in x (JBool b) = Inl TypeError"
| "py_in x (JInt n) = Inl TypeError"
| "py_in x (JFloat f) = Inl TypeError"

text \<open>\<^verbatim>\<open>v[k]\<close> for a string \<open>k\<close>: only a dict can be subscripted by a string.\<close>

fun py_getitem :: "json \<Rightarrow> string \<Rightarrow> error + json" where
  "py_getitem (JObj d) k = (case map_of d k of Some v \<Rightarrow> Inr v | None \<Rightarrow> Inl KeyError)"
| "py_getitem (JArr xs) k = Inl TypeError"
| "py_getitem (JStr s) k = Inl TypeError"
| "py_getitem JNull k = Inl TypeError"
| "py_getitem (JBool b) k = Inl TypeError"
| "py_getitem (JInt n) k = Inl TypeError"
| "py_getitem (JFloat f) k = Inl TypeError"

text \<open>\<^verbatim>\<open>v.items()\<close>: only a dict has the method.\<close>

fun py_items :: "json \<Rightarrow> error + (string \<times> json) list" where
  "py_items (JObj d) = Inr d"
| "py_items (JArr xs) = Inl AttributeError"
| "py_items (JStr s) = Inl AttributeError"
| "py_items JNull = Inl AttributeError"
| "py_items (JBool b) = Inl AttributeError"
| "py_items (JInt n) = Inl AttributeError"
| "py_items (JFloat f) = Inl AttributeError"

section \<open>\<^verbatim>\<open>format_schedule_for_group\<close>\<close>

text \<open>
  The format specification \<^verbatim>\<open>0<width>d\<close> of an integer: the decimal digits, a minus sign
  in front of a negative number, and zeros between sign and digits up to the width.
\<close>

definition digit_char :: "nat \<Rightarrow> char" where
  "digit_char d = ''0123456789'' ! d"

fun dec_digits :: "nat \<Rightarrow> string" where
  "dec_digits n =
     (if n < 10 then [digit_char n] else dec_digits (n div 10) @ [digit_char (n mod 10)])"

declare dec_digits.simps [simp del]

definition fmt_0d :: "nat \<Rightarrow> int \<Rightarrow> string" where
  "fmt_0d width n =
     (let sign = (if n < 0 then ''-'' else []);
          digits = dec_digits (nat \<bar>n\<bar>)
      in sign @ replicate (width - length sign - length digits) CHR ''0'' @ digits)"

text \<open>Line 113: \<^verbatim>\<open>f"{hour-1:02d}:00-{hour:02d}:00"\<close>.\<close>

definition time_range :: "int \<Rightarrow> string" where
  "time_range hour = fmt_0d 2 (hour - 1) @ '':00-'' @ fmt_0d 2 hour @ '':00''"

text \<open>
  Lines 116 to 127, the chain that maps a status to its readable form.  A status that is
  not a string equals none of the four codes and reaches \<^verbatim>\<open>"maybe" in status\<close>.
\<close>

definition readable_status :: "json \<Rightarrow> error + json" where
  "readable_status status =
     (if status = JStr ''yes'' then Inr (JStr ''light_on'')
      else if status = JStr ''no'' then Inr (JStr ''light_off'')
      else if status = JStr ''first'' then Inr (JStr ''off_first_30min'')
      else if status = JStr ''second'' then Inr (JStr ''off_second_30min'')
      else
        (case py_in ''maybe'' status of
           Inl e \<Rightarrow> Inl e
         | Inr True \<Rightarrow> Inr (JStr ''possible_outage'')
         | Inr False \<Rightarrow> Inr status))"

type_synonym day_map = "(string \<times> json) list"
type_synonym days_map = "(string \<times> day_map) list"

text \<open>
  The inner loop, lines 111 to 129, over the items of \<^verbatim>\<open>hours_data\<close> still to be read and
  the current \<^verbatim>\<open>result["days"]\<close>.  \<open>to_int\<close> is \<^verbatim>\<open>int\<close> on a string, \<open>None\<close> for its
  \<^verbatim>\<open>ValueError\<close>.  Line 129 reads \<^verbatim>\<open>result["days"][date]\<close> and stores into that dict.
\<close>

fun hours_loop ::
  "(string \<Rightarrow> int option) \<Rightarrow> string \<Rightarrow> (string \<times> json) list \<Rightarrow> days_map \<Rightarrow> error + days_map" where
  "hours_loop to_int date [] days = Inr days"
| "hours_loop to_int date ((hour_str, status) # rest) days =
     (case to_int hour_str of
        None \<Rightarrow> Inl ValueError
      | Some hour \<Rightarrow>
          (case readable_status status of
             Inl e \<Rightarrow> Inl e
           | Inr readable \<Rightarrow>
               (case map_of days date of
                  None \<Rightarrow> Inl KeyError
                | Some day \<Rightarrow>
                    hours_loop to_int date rest
                      (dict_set date (dict_set (time_range hour) readable day) days))))"

text \<open>
  The outer loop, lines 104 to 129, over the items of \<^verbatim>\<open>fact_data["data"]\<close>.
  \<open>to_date\<close> is \<^verbatim>\<open>datetime.fromtimestamp(n).strftime("%Y-%m-%d")\<close> in the time zone of the
  host, \<open>None\<close> when \<^verbatim>\<open>fromtimestamp\<close> raises.
\<close>

fun days_loop ::
  "(string \<Rightarrow> int option) \<Rightarrow> (int \<Rightarrow> string option) \<Rightarrow> string \<Rightarrow>
   (string \<times> json) list \<Rightarrow> days_map \<Rightarrow> error + days_map" where
  "days_loop to_int to_date g [] days = Inr days"
| "days_loop to_int to_date g ((timestamp, groups_data) # rest) days =
     (case to_int timestamp of
        None \<Rightarrow> Inl ValueError
      | Some seconds \<Rightarrow>
          (case to_date seconds of
             None \<Rightarrow> Inl DateError
           | Some date \<Rightarrow>
               (case py_in g groups_data of
                  Inl e \<Rightarrow> Inl e
                | Inr False \<Rightarrow> days_loop to_int to_date g rest days
                | Inr True \<Rightarrow>
                    (case py_getitem groups_data g of
                       Inl e \<Rightarrow> Inl e
                     | Inr hours_data \<Rightarrow>
                         (case py_items hours_data of
                            Inl e \<Rightarrow> Inl e
                          | Inr items \<Rightarrow>
                              (case hours_loop to_int date items (dict_set date [] days) of
                                 Inl e \<Rightarrow> Inl e
                               | Inr days' \<Rightarrow> days_loop to_int to_date g rest days'))))))"

text \<open>The dict \<^verbatim>\<open>{"group": group, "days": {}}\<close> that the function returns.\<close>

record group_schedule =
  group :: string
  days :: days_map

text \<open>\<open>fact_data\<close> is a \<^verbatim>\<open>dict\<close>, as the signature says; \<open>main\<close> passes nothing else.\<close>

definition format_schedule_for_group ::
  "(string \<Rightarrow> int option) \<Rightarrow> (int \<Rightarrow> string option) \<Rightarrow>
   (string \<times> json) list \<Rightarrow> string \<Rightarrow> error + group_schedule" where
  "format_schedule_for_group to_int to_date fact_data g =
     (let result = \<lparr>group = g, days = []\<rparr> in
      if map_of fact_data ''data'' = None then Inr result
      else
        (case py_getitem (JObj fact_data) ''data'' of
           Inl e \<Rightarrow> Inl e
         | Inr data \<Rightarrow>
             (case py_items data of
                Inl e \<Rightarrow> Inl e
              | Inr items \<Rightarrow>
                  (case days_loop to_int to_date g items (days result) of
                     Inl e \<Rightarrow> Inl e
                   | Inr days' \<Rightarrow> Inr (result\<lparr>days := days'\<rparr>)))))"

section \<open>\<^verbatim>\<open>main\<close>\<close>

definition GROUPS_TO_PARSE :: "string list" where
  "GROUPS_TO_PARSE =
     [''GPV1.1'', ''GPV1.2'', ''GPV2.1'', ''GPV2.2'', ''GPV3.1'', ''GPV3.2'',
      ''GPV4.1'', ''GPV4.2'', ''GPV5.1'', ''GPV5.2'', ''GPV6.1'', ''GPV6.2'']"

type_synonym groups_map = "(string \<times> days_map) list"

text \<open>
  Lines 150 to 153, over the groups still to be formatted and the current
  \<^verbatim>\<open>output["groups"]\<close>.  An empty dict is false in \<^verbatim>\<open>if formatted["days"]\<close>.
\<close>

fun groups_loop ::
  "(string \<Rightarrow> int option) \<Rightarrow> (int \<Rightarrow> string option) \<Rightarrow>
   (string \<times> json) list \<Rightarrow> string list \<Rightarrow> groups_map \<Rightarrow> error + groups_map" where
  "groups_loop to_int to_date fact_data [] groups = Inr groups"
| "groups_loop to_int to_date fact_data (g # rest) groups =
     (case format_schedule_for_group to_int to_date fact_data g of
        Inl e \<Rightarrow> Inl e
      | Inr formatted \<Rightarrow>
          if days formatted \<noteq> []
          then groups_loop to_int to_date fact_data rest (dict_set g (days formatted) groups)
          else groups_loop to_int to_date fact_data rest groups)"

record output_document =
  out_fetched_at :: string
  update_time :: json
  groups :: groups_map

text \<open>
  Everything \<open>main\<close> takes from outside: the outcome of \<^verbatim>\<open>requests.get\<close>, the library
  functions \<^verbatim>\<open>json.loads\<close>, \<^verbatim>\<open>int\<close> and \<^verbatim>\<open>datetime.fromtimestamp\<close>, the clock, and
  whether writing the output file raises.
\<close>

record world =
  requests_get :: "error + response"
  json_loads :: "string \<Rightarrow> json option"
  py_int :: "string \<Rightarrow> int option"
  local_date :: "int \<Rightarrow> string option"
  now_isoformat :: string
  write_raises :: bool

text \<open>
  What a run leaves behind: the value \<open>main\<close> returns, and the document handed to
  \<^verbatim>\<open>json.dump\<close> at line 157 when the run gets that far.
\<close>

record run =
  returned :: bool
  dumped :: "output_document option"

definition failed_run :: run where
  "failed_run = \<lparr>returned = False, dumped = None\<rparr>"

text \<open>
  Lines 135 to 186.  Every exception ends in the \<^verbatim>\<open>except\<close> clause, which returns
  \<^verbatim>\<open>False\<close>.  \<^verbatim>\<open>raw_data["fact"].get\<close> exists on a dict only.  The \<^verbatim>\<open>print\<close> calls and
  the summary of lines 161 to 181 write to the console only and are left out.
\<close>

definition main :: "world \<Rightarrow> run" where
  "main w =
     (case fetch_dtek_page (requests_get w) of
        Inl e \<Rightarrow> failed_run
      | Inr html \<Rightarrow>
          (case parse_schedule (json_loads w) (now_isoformat w) html of
             Inl e \<Rightarrow> failed_run
           | Inr raw \<Rightarrow>
               (case fact raw of
                  JObj fact_data \<Rightarrow>
                    (let update = (case map_of fact_data ''update'' of
                                     Some v \<Rightarrow> v
                                   | None \<Rightarrow> JStr ''unknown'')
                     in case groups_loop (py_int w) (local_date w) fact_data GROUPS_TO_PARSE [] of
                          Inl e \<Rightarrow> failed_run
                        | Inr groups' \<Rightarrow>
                            (let output = \<lparr>out_fetched_at = fetched_at raw,
                                            update_time = update, groups = groups'\<rparr>
                             in if write_raises w
                                then \<lparr>returned = False, dumped = Some output\<rparr>
                                else \<lparr>returned = True, dumped = Some output\<rparr>))
                | _ \<Rightarrow> failed_run)))"

section \<open>What the specification calls a balanced object\<close>

text \<open>
  The text between the outer braces of an object whose braces match: characters other
  than braces, and nested brace pairs.  The scan does not know about string literals, so
  neither does this grammar.
\<close>

inductive balanced_body :: "string \<Rightarrow> bool" where
  bb_empty: "balanced_body []"
| bb_plain: "c \<noteq> CHR ''{'' \<Longrightarrow> c \<noteq> CHR ''}'' \<Longrightarrow> balanced_body xs \<Longrightarrow> balanced_body (c # xs)"
| bb_nested: "balanced_body xs \<Longrightarrow> balanced_body ys \<Longrightarrow>
     balanced_body (CHR ''{'' # xs @ CHR ''}'' # ys)"

text \<open>
  The depth counter of the specification after reading a text: one up for every opening
  brace, one down for every closing brace.
\<close>

fun brace_depth :: "string \<Rightarrow> int" where
  "brace_depth [] = 0"
| "brace_depth (c # cs) =
     (if c = CHR ''{'' then 1 else if c = CHR ''}'' then - 1 else 0) + brace_depth cs"

text \<open>
  The label of the specification for an hour: two decimal digits for the hour before, two
  for the hour itself.
\<close>

definition two_digits :: "int \<Rightarrow> string" where
  "two_digits n = [digit_char (nat (n div 10)), digit_char (nat (n mod 10))]"

text \<open>
  The character at index \<open>n\<close> of \<open>s\<close> is a closing brace that brings the depth counter,
  zero before \<open>s\<close>, back to zero.
\<close>

definition closes_at :: "string \<Rightarrow> nat \<Rightarrow> bool" where
  "closes_at s n \<longleftrightarrow>
     n < length s \<and> s ! n = CHR ''}'' \<and> brace_depth (take (Suc n) s) = 0"

text \<open>
  The entries that one \<^verbatim>\<open>hours_data\<close> contributes to a day: for each pair in turn, the
  label of the hour set to the readable status.
\<close>

fun fill_day ::
  "(string \<Rightarrow> int option) \<Rightarrow> (string \<times> json) list \<Rightarrow> day_map \<Rightarrow> error + day_map" where
  "fill_day to_int [] day = Inr day"
| "fill_day to_int ((hour_str, status) # rest) day =
     (case to_int hour_str of
        None \<Rightarrow> Inl ValueError
      | Some hour \<Rightarrow>
          (case readable_status status of
             Inl e \<Rightarrow> Inl e
           | Inr readable \<Rightarrow> fill_day to_int rest (dict_set (time_range hour) readable day)))"

section \<open>A sample host\<close>

text \<open>
  Instances of the library functions, for running the definitions above on examples.
  \<open>int_of_digits\<close> is \<^verbatim>\<open>int\<close> on a string of ASCII digits (and rejects every other string,
  which \<^verbatim>\<open>int\<close> does not); \<open>sample_date\<close> is the date of a unix time on a host whose time
  zone is UTC, for the one day the examples use; \<open>fixture_loads\<close> is \<^verbatim>\<open>json.loads\<close> on the
  two documents of the examples, and rejects every other text, the empty one among them.
\<close>

definition digit_value :: "char \<Rightarrow> int option" where
  "digit_value c = map_of (zip ''0123456789'' [0, 1, 2, 3, 4, 5, 6, 7, 8, 9]) c"

fun digits_value :: "string \<Rightarrow> int \<Rightarrow> int option" where
  "digits_value [] acc = Some acc"
| "digits_value (c # cs) acc =
     (case digit_value c of None \<Rightarrow> None | Some d \<Rightarrow> digits_value cs (10 * acc + d))"

definition int_of_digits :: "string \<Rightarrow> int option" where
  "int_of_digits s = (if s = [] then None else digits_value s 0)"

definition sample_date :: "int \<Rightarrow> string option" where
  "sample_date seconds = (if seconds div 86400 = 19675 then Some ''2023-11-14'' else None)"

definition fixture_fact_text :: string where
  \<open>fixture_fact_text =
     ''{"update":"12:00","data":{"1700000000":{"GPV1.1":{"1":"yes","2":"no"}}}}''\<close>

definition fixture_fact :: "(string \<times> json) list" where
  "fixture_fact =
     [(''update'', JStr ''12:00''),
      (''data'', JObj [(''1700000000'',
         JObj [(''GPV1.1'', JObj [(''1'', JStr ''yes''), (''2'', JStr ''no'')])])])]"

definition fixture_loads :: "string \<Rightarrow> json option" where
  "fixture_loads s = map_of [(fixture_fact_text, JObj fixture_fact), (''{}'', JObj [])] s"

text \<open>
  Pages long enough to pass the check of line 41: the fact block of the fixture, then
  nothing but blanks; the same with a preset block that is no JSON; and a page that has
  the name \<^verbatim>\<open>DisconSchedule\<close> but no fact block.
\<close>

definition fixture_page :: string where
  \<open>fixture_page =
     ''<p>DisconSchedule.fact = {"update":"12:00","data":{"1700000000":{"GPV1.1":{"1":"yes","2":"no"}}}}; ''
     @ replicate 1000 CHR '' ''\<close>

definition bad_preset_page :: string where
  \<open>bad_preset_page =
     ''<p>DisconSchedule.fact = {"update":"12:00","data":{"1700000000":{"GPV1.1":{"1":"yes","2":"no"}}}}; ''
     @ ''DisconSchedule.preset = {a:1}; '' @ replicate 1000 CHR '' ''\<close>

definition no_fact_page :: string where
  "no_fact_page = ''<p>DisconSchedule</p>'' @ replicate 1000 CHR '' ''"

definition sample_world :: "error + response \<Rightarrow> (string \<Rightarrow> json option) \<Rightarrow> world" where
  "sample_world got loads =
     \<lparr>requests_get = got, json_loads = loads, py_int = int_of_digits,
      local_date = sample_date, now_isoformat = ''2023-11-14T22:13:20'',
      write_raises = False\<rparr>"

section \<open>Properties of the string operations\<close>

lemma str_contains_iff: "str_contains sub s \<longleftrightarrow> (\<exists>pre post. s = pre @ sub @ post)"
proof (induction s)
  case Nil
  then show ?case by auto
next
  case (Cons c cs)
  show ?case
  proof
    assume "str_contains sub (c # cs)"
    then consider "prefix sub (c # cs)" | "str_contains sub cs" by auto
    then show "\<exists>pre post. c # cs = pre @ sub @ post"
    proof cases
      case 1
      then obtain post where "c # cs = sub @ post" by (auto simp: prefix_def)
      then have "c # cs = [] @ sub @ post" by simp
      then show ?thesis by blast
    next
      case 2
      with Cons.IH obtain pre post where "cs = pre @ sub @ post" by blast
      then have "c # cs = (c # pre) @ sub @ post" by simp
      then show ?thesis by blast
    qed
  next
    assume "\<exists>pre post. c # cs = pre @ sub @ post"
    then obtain pre post where eq: "c # cs = pre @ sub @ post" by blast
    show "str_contains sub (c # cs)"
    proof (cases pre)
      case Nil
      with eq have "prefix sub (c # cs)" by (simp add: prefix_def)
      then show ?thesis by simp
    next
      case (Cons p ps)
      with eq have "cs = ps @ sub @ post" by simp
      with Cons.IH have "str_contains sub cs" by blast
      then show ?thesis by simp
    qed
  qed
qed

lemma find_sub_first:
  "prefix sub (drop k s) \<Longrightarrow> k \<le> length s \<Longrightarrow> \<forall>j<k. \<not> prefix sub (drop j s) \<Longrightarrow>
   find_sub sub s = Some k"
proof (induction s arbitrary: k)
  case Nil
  then show ?case by simp
next
  case (Cons c cs)
  show ?case
  proof (cases k)
    case 0
    with Cons.prems show ?thesis by simp
  next
    case (Suc k')
    with Cons.prems have "\<not> prefix sub (drop 0 (c # cs))" by blast
    then have no: "\<not> prefix sub (c # cs)" by simp
    have "\<forall>j<k'. \<not> prefix sub (drop j cs)"
    proof (intro allI impI)
      fix j assume "j < k'"
      then have "Suc j < k" using Suc by simp
      with Cons.prems have "\<not> prefix sub (drop (Suc j) (c # cs))" by blast
      then show "\<not> prefix sub (drop j cs)" by simp
    qed
    moreover have "prefix sub (drop k' cs)" "k' \<le> length cs"
      using Cons.prems Suc by simp_all
    ultimately have "find_sub sub cs = Some k'" using Cons.IH by blast
    with no Suc show ?thesis by simp
  qed
qed

lemma find_sub_None: "find_sub sub s = None \<longleftrightarrow> \<not> str_contains sub s"
  by (induction s) auto

section \<open>Properties of the brace scan\<close>

lemma scan_braces_body:
  "balanced_body xs \<Longrightarrow> 1 \<le> d \<Longrightarrow>
   scan_braces (xs @ rest) i d = scan_braces rest (i + int (length xs)) d"
proof (induction xs arbitrary: i d rest rule: balanced_body.induct)
  case bb_empty
  then show ?case by simp
next
  case (bb_plain c xs)
  then show ?case by (simp add: add.assoc)
next
  case (bb_nested xs ys)
  have "scan_braces ((CHR ''{'' # xs @ CHR ''}'' # ys) @ rest) i d
      = scan_braces (xs @ (CHR ''}'' # ys @ rest)) (i + 1) (d + 1)"
    by simp
  also have "\<dots> = scan_braces (CHR ''}'' # ys @ rest) (i + 1 + int (length xs)) (d + 1)"
    using bb_nested.IH(1) [of "d + 1"] bb_nested.prems by simp
  also have "\<dots> = scan_braces (ys @ rest) (i + 1 + int (length xs) + 1) d"
    using bb_nested.prems by simp
  also have "\<dots> = scan_braces rest (i + 1 + int (length xs) + 1 + int (length ys)) d"
    using bb_nested.IH(2) [of d] bb_nested.prems by simp
  finally show ?case by (simp add: algebra_simps)
qed

lemma scan_braces_object:
  assumes "balanced_body body"
  shows "scan_braces (CHR ''{'' # body @ CHR ''}'' # trailing) i 0
       = Some (i + int (length body) + 2)"
proof -
  have "scan_braces (CHR ''{'' # body @ CHR ''}'' # trailing) i 0
      = scan_braces (body @ (CHR ''}'' # trailing)) (i + 1) 1"
    by simp
  also have "\<dots> = scan_braces (CHR ''}'' # trailing) (i + 1 + int (length body)) 1"
    using scan_braces_body [OF assms, of 1] by simp
  also have "\<dots> = Some (i + int (length body) + 2)"
    by simp
  finally show ?thesis .
qed

section \<open>Claim C1: the fact block is the balanced object after the marker\<close>

lemma balanced_body_plain: "CHR ''{'' \<notin> set xs \<Longrightarrow> CHR ''}'' \<notin> set xs \<Longrightarrow> balanced_body xs"
  by (induction xs) (auto intro: balanced_body.intros)

lemma balanced_body_append: "balanced_body xs \<Longrightarrow> balanced_body ys \<Longrightarrow> balanced_body (xs @ ys)"
  by (induction xs rule: balanced_body.induct) (auto intro: balanced_body.intros)

lemma balanced_body_braces: "balanced_body xs \<Longrightarrow> balanced_body (''{'' @ xs @ ''}'')"
  using bb_nested [OF _ bb_empty] by simp

lemma balanced_body_sample: \<open>balanced_body ''"a":{"b":{"c":"yes"}},"d":{}''\<close>
proof -
  have 1: \<open>balanced_body (''{'' @ ''"c":"yes"'' @ ''}'')\<close>
    by (rule balanced_body_braces) (simp add: balanced_body_plain)
  have 2: \<open>balanced_body (''{'' @ (''"b":'' @ ''{'' @ ''"c":"yes"'' @ ''}'') @ ''}'')\<close>
    by (rule balanced_body_braces, rule balanced_body_append) (simp add: balanced_body_plain, rule 1)
  have 3: \<open>balanced_body (''{'' @ [] @ ''}'')\<close>
    by (rule balanced_body_braces) (rule bb_empty)
  have \<open>balanced_body (''"a":'' @ (''{'' @ (''"b":'' @ ''{'' @ ''"c":"yes"'' @ ''}'') @ ''}'')
      @ '',"d":'' @ (''{'' @ [] @ ''}''))\<close>
    by (intro balanced_body_append 2 3) (simp_all add: balanced_body_plain)
  then show ?thesis by simp
qed

lemma extract_fact_object:
  assumes html: "html = pre @ fact_marker @ body @ ''}'' @ trailing"
    and first: "\<forall>j<length pre. \<not> prefix fact_marker (drop j html)"
    and bal: "balanced_body body"
  shows "extract_fact html = Inr (''{'' @ body @ ''}'')"
proof -
  let ?n = "length pre"
  have len: "?n \<le> length html" using html by simp
  have "prefix fact_marker (drop ?n html)" using html by simp
  then have "find_sub fact_marker html = Some ?n"
    using find_sub_first len first by blast
  then have start: "py_find html fact_marker 0 = int ?n"
    by (simp add: py_find_def py_index_def)
  have rest: "drop ?n html = ''DisconSchedule.fact = '' @ CHR ''{'' # body @ CHR ''}'' # trailing"
    using html by (simp add: fact_marker_def)
  have "find_sub ''{'' (drop ?n html) = Some 22"
    unfolding rest by simp
  then have jstart: "py_find html ''{'' (int ?n) = int ?n + 22"
    using len by (simp add: py_find_def py_index_def)
  have idx: "py_index (length html) (int ?n + 22) = ?n + 22"
    using html by (simp add: py_index_def fact_marker_def)
  have "drop (?n + 22) html = drop 22 (drop ?n html)" by (simp add: add.commute)
  also have "\<dots> = CHR ''{'' # body @ CHR ''}'' # trailing"
    unfolding rest by simp
  finally have tail: "drop (?n + 22) html = CHR ''{'' # body @ CHR ''}'' # trailing" .
  have sl: "py_slice_from html (int ?n + 22) = CHR ''{'' # body @ CHR ''}'' # trailing"
    by (simp add: py_slice_from_def idx tail)
  have scan: "scan_braces (py_slice_from html (int ?n + 22)) (int ?n + 22) 0
      = Some (int ?n + 22 + int (length body) + 2)"
    unfolding sl by (rule scan_braces_object [OF bal])
  have idx2: "py_index (length html) (int ?n + 22 + int (length body) + 2) = ?n + 22 + length body + 2"
    using html by (simp add: py_index_def fact_marker_def)
  have "py_slice html (int ?n + 22) (int ?n + 22 + int (length body) + 2)
      = take (length body + 2) (CHR ''{'' # body @ CHR ''}'' # trailing)"
    unfolding py_slice_def Let_def idx idx2 tail by simp
  also have "\<dots> = ''{'' @ body @ ''}''" by simp
  finally have slice: "py_slice html (int ?n + 22) (int ?n + 22 + int (length body) + 2)
      = ''{'' @ body @ ''}''" .
  show ?thesis
    using jstart scan slice by (simp add: extract_fact_def start Let_def)
qed

text \<open>
  C1.  Let the text be any prefix, the marker (which ends in the opening brace), a body
  whose braces match, the closing brace and any trailing text, the marker not starting
  anywhere before the end of the prefix.  Then the extraction returns the opening brace,
  the body and the closing brace, whatever the trailing text and however deep the body
  nests: the closing brace is the one that brings the counter back to zero.
\<close>

theorem extract_fact_balanced:
  assumes "html = pre @ fact_marker @ body @ ''}'' @ trailing"
    and "\<forall>j<length pre. \<not> prefix fact_marker (drop j html)"
    and "balanced_body body"
  shows "extract_fact html = Inr (''{'' @ body @ ''}'')"
  using assms by (rule extract_fact_object)

theorem extract_fact_balanced_witness:
  \<open>balanced_body ''"a":{"b":{"c":"yes"}},"d":{}''
   \<and> extract_fact ''<p>DisconSchedule.fact = {"a":{"b":{"c":"yes"}},"d":{}}; x = {}}</p>''
       = Inr ''{"a":{"b":{"c":"yes"}},"d":{}}''\<close>
proof -
  have first: \<open>\<forall>j<length ''<p>''. \<not> prefix fact_marker (drop j
      (''<p>'' @ fact_marker @ ''"a":{"b":{"c":"yes"}},"d":{}'' @ ''}'' @ ''; x = {}}</p>''))\<close>
    by (simp add: fact_marker_def less_Suc_eq numeral_3_eq_3 all_conj_distrib)
  show ?thesis
    using extract_fact_balanced [OF refl first balanced_body_sample] balanced_body_sample
    by (simp add: fact_marker_def)
qed

section \<open>More on the string operations and the scan\<close>

lemma scan_braces_None_iff:
  "scan_braces s i d = None \<longleftrightarrow>
   (\<forall>n<length s. s ! n = CHR ''}'' \<longrightarrow> d + brace_depth (take (Suc n) s) \<noteq> 0)"
proof (induction s arbitrary: i d)
  case Nil
  then show ?case by simp
next
  case (Cons c cs)
  have split: "\<And>P. (\<forall>n<Suc (length cs). P n) \<longleftrightarrow> P 0 \<and> (\<forall>n<length cs. P (Suc n))"
    by (auto simp: less_Suc_eq_0_disj)
  show ?case
  proof (cases "c = CHR ''{''")
    case True
    then show ?thesis
      using Cons.IH [of "i + 1" "d + 1"] by (simp add: split add.assoc)
  next
    case nb: False
    show ?thesis
    proof (cases "c = CHR ''}''")
      case True
      then show ?thesis
        using Cons.IH [of "i + 1" "d - 1"] by (auto simp: split)
    next
      case False
      then show ?thesis
        using nb Cons.IH [of "i + 1" d] by (simp add: split)
    qed
  qed
qed

lemma find_sub_char:
  "c \<notin> set xs \<Longrightarrow> find_sub [c] (xs @ c # ys) = Some (length xs)"
  by (induction xs) auto

lemma py_find_0:
  "py_find s sub 0 = (case find_sub sub s of None \<Rightarrow> - 1 | Some k \<Rightarrow> int k)"
  by (simp add: py_find_def py_index_def split: option.splits)

lemma py_find_0_absent:
  "py_find s sub 0 = - 1 \<longleftrightarrow> \<not> (\<exists>pre post. s = pre @ sub @ post)"
  using find_sub_None [of sub s]
  by (auto simp: py_find_0 str_contains_iff split: option.splits)

lemma py_index_nat: "py_index n (int k) = min n k"
  by (simp add: py_index_def)

lemma py_slice_nat:
  assumes "a \<le> length s"
  shows "py_slice s (int a) (int a + int k) = take k (drop a s)"
proof -
  have lo: "py_index (length s) (int a) = a"
    using assms by (simp add: py_index_nat)
  have "int a + int k = int (a + k)" by simp
  then have hi: "py_index (length s) (int a + int k) = min (length s) (a + k)"
    by (simp only: py_index_nat)
  show ?thesis
  proof (cases "a + k \<le> length s")
    case True
    then show ?thesis unfolding py_slice_def Let_def lo hi by (simp add: min_def)
  next
    case False
    then have "length (drop a s) \<le> k" "length (drop a s) \<le> min (length s) (a + k) - a"
      by simp_all
    then show ?thesis unfolding py_slice_def Let_def lo hi by simp
  qed
qed

text \<open>Where the scan starts when the marker first occurs after \<open>pre\<close>.\<close>

lemma locate_object:
  assumes html: "html = pre @ (stem @ ''{'') @ rest"
    and first: "\<forall>j<length pre. \<not> prefix (stem @ ''{'') (drop j html)"
    and stem: "CHR ''{'' \<notin> set stem"
  shows "py_find html (stem @ ''{'') 0 = int (length pre)"
    and "py_find html ''{'' (int (length pre)) = int (length pre + length stem)"
    and "py_slice_from html (int (length pre + length stem)) = CHR ''{'' # rest"
    and "py_slice html (int (length pre + length stem)) (int (length pre + length stem) + int k)
         = take k (CHR ''{'' # rest)"
proof -
  let ?n = "length pre"
  have len: "?n \<le> length html" using html by simp
  have "prefix (stem @ ''{'') (drop ?n html)" using html by simp
  then have "find_sub (stem @ ''{'') html = Some ?n"
    using find_sub_first len first by blast
  then show "py_find html (stem @ ''{'') 0 = int ?n"
    by (simp add: py_find_0)
  have rest: "drop ?n html = stem @ CHR ''{'' # rest"
    using html by simp
  have "find_sub ''{'' (drop ?n html) = Some (length stem)"
    unfolding rest using stem by (rule find_sub_char)
  then show "py_find html ''{'' (int ?n) = int (?n + length stem)"
    using len by (simp add: py_find_def py_index_def)
  have idx: "py_index (length html) (int (?n + length stem)) = ?n + length stem"
    using html by (simp add: py_index_def)
  have "drop (?n + length stem) html = drop (length stem) (drop ?n html)"
    by (simp add: add.commute)
  also have "\<dots> = CHR ''{'' # rest"
    unfolding rest by simp
  finally have tail: "drop (?n + length stem) html = CHR ''{'' # rest" .
  show "py_slice_from html (int (?n + length stem)) = CHR ''{'' # rest"
    unfolding py_slice_from_def idx tail by (rule refl)
  have "py_slice html (int (?n + length stem)) (int (?n + length stem) + int k)
      = take k (drop (?n + length stem) html)"
    using html by (intro py_slice_nat) simp
  then show "py_slice html (int (?n + length stem)) (int (?n + length stem) + int k)
      = take k (CHR ''{'' # rest)"
    unfolding tail .
qed

lemma never_closes_scan:
  "(\<forall>n. \<not> closes_at s n) \<longleftrightarrow> scan_braces s i 0 = None"
  unfolding scan_braces_None_iff closes_at_def by auto

section \<open>Claim C4: the readable status of a string\<close>

text \<open>
  C4.  On every string the chain returns a value and raises nothing: the four exact codes
  map to their labels, any other string that contains \<^verbatim>\<open>maybe\<close> somewhere maps to
  \<^verbatim>\<open>possible_outage\<close>, and every other string is returned unchanged.
\<close>

theorem readable_status_string:
  "readable_status (JStr code) =
     Inr (JStr (if code = ''yes'' then ''light_on''
                else if code = ''no'' then ''light_off''
                else if code = ''first'' then ''off_first_30min''
                else if code = ''second'' then ''off_second_30min''
                else if (\<exists>pre post. code = pre @ ''maybe'' @ post) then ''possible_outage''
                else code))"
  by (simp add: readable_status_def str_contains_iff)

section \<open>The format of two digits\<close>

lemma digit_char_0: "digit_char 0 = CHR ''0''"
  by (simp add: digit_char_def)

lemma fmt_0d_two_digits:
  assumes "0 \<le> n" "n < 100"
  shows "fmt_0d 2 n = two_digits n"
proof (cases "n < 10")
  case True
  then have d: "dec_digits (nat n) = [digit_char (nat n)]"
    using assms by (simp add: dec_digits.simps [of "nat n"])
  have "n div 10 = 0" "n mod 10 = n" using True assms by simp_all
  then show ?thesis
    using assms by (simp add: fmt_0d_def two_digits_def d digit_char_0)
next
  case False
  let ?m = "nat n"
  have m: "\<not> ?m < 10" "?m div 10 < 10" using False assms by auto
  have "dec_digits ?m = dec_digits (?m div 10) @ [digit_char (?m mod 10)]"
    using m by (simp add: dec_digits.simps [of ?m])
  also have "dec_digits (?m div 10) = [digit_char (?m div 10)]"
    using m by (simp add: dec_digits.simps [of "?m div 10"])
  finally have d: "dec_digits ?m = [digit_char (?m div 10), digit_char (?m mod 10)]"
    by simp
  have "nat (n div 10) = ?m div 10" "nat (n mod 10) = ?m mod 10"
    using assms by (simp_all add: nat_div_distrib nat_mod_distrib)
  then show ?thesis
    using assms by (simp add: fmt_0d_def two_digits_def d)
qed

section \<open>Claim C9: a fact document without data\<close>

lemma format_no_data:
  "map_of fact_data ''data'' = None \<Longrightarrow>
   format_schedule_for_group to_int to_date fact_data g = Inr \<lparr>group = g, days = []\<rparr>"
  by (simp add: format_schedule_for_group_def)

lemma groups_loop_no_data:
  "map_of fact_data ''data'' = None \<Longrightarrow>
   groups_loop to_int to_date fact_data gs acc = Inr acc"
  by (induction gs) (simp_all add: format_no_data)

text \<open>
  C9.  When the fact document has no \<^verbatim>\<open>data\<close> key, the function returns the empty day
  mapping for every group and raises nothing, so the loop over any list of groups leaves
  the groups mapping empty.
\<close>

theorem no_data_empty:
  assumes "map_of fact_data ''data'' = None"
  shows "format_schedule_for_group to_int to_date fact_data g = Inr \<lparr>group = g, days = []\<rparr>
       \<and> groups_loop to_int to_date fact_data gs [] = Inr []"
  using assms by (simp add: format_no_data groups_loop_no_data)

theorem no_data_empty_witness:
  "format_schedule_for_group int_of_digits sample_date [(''update'', JStr ''12:00'')] ''GPV1.1''
     = Inr \<lparr>group = ''GPV1.1'', days = []\<rparr>
   \<and> groups_loop int_of_digits sample_date [(''update'', JStr ''12:00'')] GROUPS_TO_PARSE []
     = Inr []"
  using no_data_empty [of "[(''update'', JStr ''12:00'')]" int_of_digits sample_date
      "''GPV1.1''" GROUPS_TO_PARSE]
  by simp

section \<open>Claim C6: the page of the protection\<close>

text \<open>
  C6.  When the response has status 200 and its text is shorter than 1000 characters or
  does not contain \<^verbatim>\<open>DisconSchedule\<close>, fetching raises the exception of line 42, and the run
  returns \<^verbatim>\<open>False\<close> with nothing written, whatever the rest of the world is: nothing after
  the fetch is evaluated.
\<close>

theorem protection_page:
  assumes "requests_get w = Inr r" and "status_code r = 200"
    and "length (resp_text r) < 1000 \<or> \<not> (\<exists>pre post. resp_text r = pre @ ''DisconSchedule'' @ post)"
  shows "fetch_dtek_page (requests_get w) = Inl ProtectionPage
       \<and> main w = \<lparr>returned = False, dumped = None\<rparr>"
  using assms by (auto simp: fetch_dtek_page_def main_def failed_run_def str_contains_iff)

theorem protection_page_witness:
  "fetch_dtek_page (Inr \<lparr>status_code = 200, resp_text = ''<html>Request unsuccessful.</html>''\<rparr>)
     = Inl ProtectionPage
   \<and> main \<lparr>requests_get = Inr \<lparr>status_code = 200,
                                   resp_text = ''<html>Request unsuccessful.</html>''\<rparr>,
            json_loads = fixture_loads, py_int = int_of_digits, local_date = sample_date,
            now_isoformat = ''2023-11-14T22:13:20'', write_raises = False\<rparr>
     = \<lparr>returned = False, dumped = None\<rparr>"
  using protection_page [of
      "\<lparr>requests_get = Inr \<lparr>status_code = 200,
                                 resp_text = ''<html>Request unsuccessful.</html>''\<rparr>,
        json_loads = fixture_loads, py_int = int_of_digits, local_date = sample_date,
        now_isoformat = ''2023-11-14T22:13:20'', write_raises = False\<rparr>"
      "\<lparr>status_code = 200, resp_text = ''<html>Request unsuccessful.</html>''\<rparr>"]
  by simp

section \<open>Properties of the dictionaries and of the loops\<close>

lemma map_of_dict_set: "map_of (dict_set k v d) = (map_of d)(k \<mapsto> v)"
  by (induction d) auto

lemma dict_set_twice: "dict_set k v (dict_set k v' d) = dict_set k v d"
  by (induction d) auto

lemma dict_set_same: "map_of d k = Some v \<Longrightarrow> dict_set k v d = d"
  by (induction d) (auto split: if_splits)



lemma keys_dict_set: "fst ` set (dict_set k v d) = insert k (fst ` set d)"
  using arg_cong [OF map_of_dict_set [of k v d], of dom]
  by (simp add: dom_map_of_conv_image_fst)

lemma hours_loop_fill:
  "map_of ds date = Some day \<Longrightarrow>
   hours_loop to_int date items ds =
     (case fill_day to_int items day of
        Inl e \<Rightarrow> Inl e
      | Inr day' \<Rightarrow> Inr (dict_set date day' ds))"
proof (induction items arbitrary: ds day)
  case Nil
  then show ?case by (simp add: dict_set_same)
next
  case (Cons item items)
  obtain hour_str status where item: "item = (hour_str, status)" by (cases item)
  show ?case
  proof (cases "to_int hour_str")
    case None
    then show ?thesis by (simp add: item)
  next
    case (Some hour)
    show ?thesis
    proof (cases "readable_status status")
      case (Inl e)
      then show ?thesis by (simp add: item Some)
    next
      case (Inr readable)
      let ?day = "dict_set (time_range hour) readable day"
      have "map_of (dict_set date ?day ds) date = Some ?day"
        by (simp add: map_of_dict_set)
      from Cons.IH [OF this]
      show ?thesis
        using Cons.prems by (simp add: item Some Inr dict_set_twice split: sum.splits)
    qed
  qed
qed

lemma hours_loop_fresh:
  "hours_loop to_int date items (dict_set date [] ds) =
     (case fill_day to_int items [] of
        Inl e \<Rightarrow> Inl e
      | Inr day \<Rightarrow> Inr (dict_set date day ds))"
  using hours_loop_fill [of "dict_set date [] ds" date "[]" to_int items]
  by (simp add: map_of_dict_set dict_set_twice split: sum.splits)


text \<open>One step of the outer loop, when it succeeds.\<close>

lemma days_loop_step:
  assumes "days_loop to_int to_date g ((ts, gd) # rest) ds = Inr ds'"
  obtains (skip) n date where "to_int ts = Some n" "to_date n = Some date"
      "py_in g gd = Inr False" "days_loop to_int to_date g rest ds = Inr ds'"
  | (store) n date d items day where "to_int ts = Some n" "to_date n = Some date"
      "gd = JObj d" "map_of d g = Some (JObj items)" "fill_day to_int items [] = Inr day"
      "days_loop to_int to_date g rest (dict_set date day ds) = Inr ds'"
proof (cases "to_int ts")
  case None
  with assms show thesis by simp
next
  case n: (Some n)
  show thesis
  proof (cases "to_date n")
    case None
    with assms n show thesis by simp
  next
    case date: (Some date)
    show thesis
    proof (cases "py_in g gd")
      case (Inl e)
      with assms n date show thesis by simp
    next
      case b: (Inr b)
      show thesis
      proof (cases b)
        case False
        with assms n date b show thesis by (intro skip [of n date]) simp_all
      next
        case True
        show thesis
        proof (cases "py_getitem gd g")
          case (Inl e)
          with assms n date b True show thesis by simp
        next
          case hd: (Inr hd)
          show thesis
          proof (cases "py_items hd")
            case (Inl e)
            with assms n date b True hd show thesis by simp
          next
            case items: (Inr items)
            then have hdo: "hd = JObj items" by (cases hd) auto
            from hd obtain d where d: "gd = JObj d" by (cases gd) auto
            with hd hdo have look: "map_of d g = Some (JObj items)"
              by (auto split: option.splits)
            show thesis
            proof (cases "fill_day to_int items []")
              case (Inl e)
              with assms n date b True hd items show thesis
                by (simp add: hours_loop_fresh)
            next
              case day: (Inr day)
              with assms n date b True hd items
              have "days_loop to_int to_date g rest (dict_set date day ds) = Inr ds'"
                by (simp add: hours_loop_fresh)
              then show thesis by (rule store [OF n date d look day])
            qed
          qed
        qed
      qed
    qed
  qed
qed

lemma hours_loop_needs_day:
  "hours_loop to_int date (item # items) ds = Inr ds' \<Longrightarrow> \<exists>day. map_of ds date = Some day"
  by (cases item) (auto split: option.splits sum.splits)

lemma fill_day_keys_mono:
  "fill_day to_int items day = Inr day' \<Longrightarrow> fst ` set day \<subseteq> fst ` set day'"
proof (induction items arbitrary: day)
  case Nil
  then show ?case by simp
next
  case (Cons item items)
  obtain hour_str status where item: "item = (hour_str, status)" by (cases item)
  from Cons.prems obtain hour readable where
    fill: "fill_day to_int items (dict_set (time_range hour) readable day) = Inr day'"
    by (auto simp: item split: option.splits sum.splits)
  from Cons.IH [OF fill] show ?case by (auto simp: keys_dict_set)
qed

lemma fill_day_key_in:
  "fill_day to_int items day = Inr day' \<Longrightarrow> (hour_str, status) \<in> set items \<Longrightarrow>
   to_int hour_str = Some h \<Longrightarrow> time_range h \<in> fst ` set day'"
proof (induction items arbitrary: day)
  case Nil
  then show ?case by simp
next
  case (Cons item items)
  obtain hs st where item: "item = (hs, st)" by (cases item)
  from Cons.prems(1) obtain hour readable where
    hour: "to_int hs = Some hour"
    and fill: "fill_day to_int items (dict_set (time_range hour) readable day) = Inr day'"
    by (auto simp: item split: option.splits sum.splits)
  show ?case
  proof (cases "(hour_str, status) \<in> set items")
    case True
    then show ?thesis using Cons.IH [OF fill] Cons.prems(3) by blast
  next
    case False
    with Cons.prems(2) item have "hs = hour_str" by simp
    with hour Cons.prems(3) have "hour = h" by simp
    then have "time_range h \<in> fst ` set (dict_set (time_range hour) readable day)"
      by (simp add: keys_dict_set)
    with fill_day_keys_mono [OF fill] show ?thesis by blast
  qed
qed

lemma time_range_sample:
  "time_range 1 = ''00:00-01:00''" "time_range 2 = ''01:00-02:00''"
  "time_range 24 = ''23:00-24:00''"
  by (simp_all add: time_range_def fmt_0d_two_digits two_digits_def digit_char_def)

lemma int_of_digits_sample:
  "int_of_digits ''1'' = Some 1" "int_of_digits ''2'' = Some 2"
  "int_of_digits ''1700000000'' = Some 1700000000"
  "int_of_digits ''1700000060'' = Some 1700000060"
  by (simp_all add: int_of_digits_def digit_value_def)

lemma sample_date_sample:
  "sample_date 1700000000 = Some ''2023-11-14''" "sample_date 1700000060 = Some ''2023-11-14''"
  by (simp_all add: sample_date_def)

lemma readable_status_sample:
  "readable_status (JStr ''yes'') = Inr (JStr ''light_on'')"
  "readable_status (JStr ''no'') = Inr (JStr ''light_off'')"
  by (simp_all add: readable_status_def)

lemmas sample_host = time_range_sample int_of_digits_sample sample_date_sample
  readable_status_sample

lemma fixture_formatted:
  "format_schedule_for_group int_of_digits sample_date fixture_fact ''GPV1.1''
   = Inr \<lparr>group = ''GPV1.1'',
          days = [(''2023-11-14'',
                   [(''00:00-01:00'', JStr ''light_on''), (''01:00-02:00'', JStr ''light_off'')])]\<rparr>"
  by (simp add: format_schedule_for_group_def fixture_fact_def sample_host)

section \<open>Claim C8: the label of an hour\<close>

text \<open>
  C8.  For an hour from 1 to 24 that the key of an hour converts to, the label is the two
  digits of the hour before, \<^verbatim>\<open>:00-\<close>, the two digits of the hour, \<^verbatim>\<open>:00\<close>.  The inner
  loop on that one pair returns the days with exactly that label stored for the date, and
  whenever the inner loop returns on items that contain the pair, that label is a key of
  the day it returns for the date.
\<close>

theorem time_range_label:
  assumes "1 \<le> h" and "h \<le> 24" and "to_int hour_str = Some h"
  shows "time_range h = two_digits (h - 1) @ '':00-'' @ two_digits h @ '':00''
       \<and> (readable_status status = Inr r
            \<longrightarrow> hours_loop to_int date [(hour_str, status)] (dict_set date [] ds0)
                = Inr (dict_set date
                         [(two_digits (h - 1) @ '':00-'' @ two_digits h @ '':00'', r)] ds0))
       \<and> (\<forall>items ds ds'. (hour_str, status) \<in> set items
              \<and> hours_loop to_int date items ds = Inr ds'
            \<longrightarrow> (\<exists>day'. map_of ds' date = Some day'
                   \<and> map_of day' (two_digits (h - 1) @ '':00-'' @ two_digits h @ '':00'') \<noteq> None))"
proof (intro conjI impI allI)
  show label: "time_range h = two_digits (h - 1) @ '':00-'' @ two_digits h @ '':00''"
    using assms(1,2) by (simp add: time_range_def fmt_0d_two_digits)
  {
    assume "readable_status status = Inr r"
    then have "fill_day to_int [(hour_str, status)] [] = Inr [(time_range h, r)]"
      using assms(3) by simp
    then show "hours_loop to_int date [(hour_str, status)] (dict_set date [] ds0)
        = Inr (dict_set date
                 [(two_digits (h - 1) @ '':00-'' @ two_digits h @ '':00'', r)] ds0)"
      unfolding hours_loop_fresh label by simp
  }
  fix items ds ds'
  assume a: "(hour_str, status) \<in> set items \<and> hours_loop to_int date items ds = Inr ds'"
  then obtain item rest where items: "items = item # rest" by (cases items) auto
  with a obtain day where day: "map_of ds date = Some day"
    using hours_loop_needs_day by blast
  from a hours_loop_fill [OF day, of to_int items] obtain day' where
    fill: "fill_day to_int items day = Inr day'" and ds': "ds' = dict_set date day' ds"
    by (auto split: sum.splits)
  have "time_range h \<in> fst ` set day'"
    using fill_day_key_in [OF fill _ assms(3)] a by blast
  then have "map_of day' (time_range h) \<noteq> None"
    by (simp add: map_of_eq_None_iff)
  with ds' label
  show "\<exists>day'. map_of ds' date = Some day'
      \<and> map_of day' (two_digits (h - 1) @ '':00-'' @ two_digits h @ '':00'') \<noteq> None"
    by (simp add: map_of_dict_set)
qed

theorem time_range_label_witness:
  "time_range 1 = ''00:00-01:00'' \<and> time_range 24 = ''23:00-24:00''
   \<and> hours_loop int_of_digits ''2023-11-14'' [(''1'', JStr ''yes'')] [(''2023-11-14'', [])]
       = Inr [(''2023-11-14'', [(''00:00-01:00'', JStr ''light_on'')])]
   \<and> format_schedule_for_group int_of_digits sample_date fixture_fact ''GPV1.1''
       = Inr \<lparr>group = ''GPV1.1'',
              days = [(''2023-11-14'',
                       [(''00:00-01:00'', JStr ''light_on''),
                        (''01:00-02:00'', JStr ''light_off'')])]\<rparr>"
proof -
  have 1: "int_of_digits ''1'' = Some 1" by (rule int_of_digits_sample)
  have 24: "int_of_digits ''24'' = Some 24"
    by (simp add: int_of_digits_def digit_value_def)
  have yes: "readable_status (JStr ''yes'') = Inr (JStr ''light_on'')"
    by (rule readable_status_sample)
  note first = time_range_label [of 1 int_of_digits "''1''" "JStr ''yes''" "JStr ''light_on''"
      "''2023-11-14''" "[]", OF _ _ 1]
  note last = time_range_label [of 24 int_of_digits "''24''" "JStr ''yes''" "JStr ''light_on''"
      "''2023-11-14''" "[]", OF _ _ 24]
  have "time_range 1 = ''00:00-01:00''"
    using first by (simp add: two_digits_def digit_char_def)
  moreover have "time_range 24 = ''23:00-24:00''"
    using last by (simp add: two_digits_def digit_char_def)
  moreover have "hours_loop int_of_digits ''2023-11-14'' [(''1'', JStr ''yes'')]
      [(''2023-11-14'', [])] = Inr [(''2023-11-14'', [(''00:00-01:00'', JStr ''light_on'')])]"
    using first yes by (simp add: two_digits_def digit_char_def)
  ultimately show ?thesis
    using fixture_formatted by simp
qed

section \<open>Claim C2: no empty group in the output\<close>


lemma format_schedule_cases:
  assumes "format_schedule_for_group to_int to_date fact_data g = Inr r"
  obtains (no_data) "map_of fact_data ''data'' = None" "r = \<lparr>group = g, days = []\<rparr>"
  | (data) items ds where "map_of fact_data ''data'' = Some (JObj items)"
      "days_loop to_int to_date g items [] = Inr ds" "r = \<lparr>group = g, days = ds\<rparr>"
proof (cases "map_of fact_data ''data''")
  case None
  with assms have "r = \<lparr>group = g, days = []\<rparr>"
    by (simp add: format_schedule_for_group_def)
  with None show thesis by (rule no_data)
next
  case (Some v)
  show thesis
  proof (cases "py_items v")
    case (Inl e)
    with assms Some show thesis by (simp add: format_schedule_for_group_def)
  next
    case (Inr items)
    then have v: "v = JObj items" by (cases v) auto
    show thesis
    proof (cases "days_loop to_int to_date g items []")
      case (Inl e)
      with assms Some v show thesis by (simp add: format_schedule_for_group_def)
    next
      case ds: (Inr ds)
      with assms Some v have "r = \<lparr>group = g, days = ds\<rparr>"
        by (simp add: format_schedule_for_group_def)
      with Some v ds show thesis by (intro data [of items ds]) simp_all
    qed
  qed
qed


lemma fixture_groups:
  "groups_loop int_of_digits sample_date fixture_fact GROUPS_TO_PARSE []
   = Inr [(''GPV1.1'',
           [(''2023-11-14'',
             [(''00:00-01:00'', JStr ''light_on''), (''01:00-02:00'', JStr ''light_off'')])])]"
  by (simp add: GROUPS_TO_PARSE_def format_schedule_for_group_def fixture_fact_def sample_host)




section \<open>Claim C10: the last timestamp of a date wins\<close>

lemma fill_day_keys:
  "fill_day to_int items day = Inr day' \<Longrightarrow>
   fst ` set day' = fst ` set day
     \<union> {time_range h |h hour_str status. (hour_str, status) \<in> set items \<and> to_int hour_str = Some h}"
proof (induction items arbitrary: day)
  case Nil
  then show ?case by simp
next
  case (Cons item items)
  obtain hs st where item: "item = (hs, st)" by (cases item)
  from Cons.prems obtain hour readable where
    hour: "to_int hs = Some hour"
    and fill: "fill_day to_int items (dict_set (time_range hour) readable day) = Inr day'"
    by (auto simp: item split: option.splits sum.splits)
  have "fst ` set day' = insert (time_range hour) (fst ` set day)
      \<union> {time_range h |h hour_str status. (hour_str, status) \<in> set items \<and> to_int hour_str = Some h}"
    using Cons.IH [OF fill] by (simp add: keys_dict_set)
  also have "\<dots> = fst ` set day
      \<union> {time_range h |h hour_str status.
           (hour_str, status) \<in> set (item # items) \<and> to_int hour_str = Some h}"
    using hour by (auto simp: item)
  finally show ?case .
qed

lemma days_loop_keeps:
  assumes "days_loop to_int to_date g items ds = Inr ds'"
    and "\<forall>(ts, gd) \<in> set items. \<forall>n. to_int ts = Some n \<longrightarrow> to_date n = Some date
           \<longrightarrow> py_in g gd = Inr False"
  shows "map_of ds' date = map_of ds date"
  using assms
proof (induction items arbitrary: ds)
  case Nil
  then show ?case by simp
next
  case (Cons item items)
  obtain ts gd where item: "item = (ts, gd)" by (cases item)
  have later: "\<forall>(ts, gd) \<in> set items. \<forall>n. to_int ts = Some n \<longrightarrow> to_date n = Some date
      \<longrightarrow> py_in g gd = Inr False"
    using Cons.prems(2) by simp
  have here: "\<And>n. to_int ts = Some n \<Longrightarrow> to_date n = Some date \<Longrightarrow> py_in g gd = Inr False"
    using Cons.prems(2) by (simp add: item)
  from Cons.prems(1) [unfolded item]
  show ?case
  proof (cases rule: days_loop_step)
    case (skip n date')
    then show ?thesis using Cons.IH later by blast
  next
    case (store n date' d hours day)
    have "py_in g gd = Inr True" using store(3,4) by simp
    with here store(1,2) have "date' \<noteq> date" by auto
    then have "map_of (dict_set date' day ds) date = map_of ds date"
      by (simp add: map_of_dict_set)
    moreover have "map_of ds' date = map_of (dict_set date' day ds) date"
      using Cons.IH [OF store(6) later] .
    ultimately show ?thesis by simp
  qed
qed

lemma days_loop_last:
  assumes "days_loop to_int to_date g (before @ (ts, JObj gd) # after) ds = Inr ds'"
    and "to_int ts = Some n" and "to_date n = Some date"
    and "map_of gd g = Some (JObj hours)"
    and "\<forall>(ts', gd') \<in> set after. \<forall>n'. to_int ts' = Some n' \<longrightarrow> to_date n' = Some date
           \<longrightarrow> py_in g gd' = Inr False"
  shows "\<exists>day. fill_day to_int hours [] = Inr day \<and> map_of ds' date = Some day"
  using assms(1)
proof (induction before arbitrary: ds)
  case Nil
  then have "days_loop to_int to_date g ((ts, JObj gd) # after) ds = Inr ds'" by simp
  then show ?case
  proof (cases rule: days_loop_step)
    case (skip n' date')
    then show ?thesis using assms(4) by simp
  next
    case (store n' date' d items day)
    have same: "date' = date" "items = hours"
      using store(1-4) assms(2-4) by simp_all
    have "map_of ds' date = map_of (dict_set date day ds) date"
      using days_loop_keeps [OF store(6) [unfolded same] assms(5)] .
    then have "map_of ds' date = Some day" by (simp add: map_of_dict_set)
    with store(5) same show ?thesis by simp
  qed
next
  case (Cons item before)
  obtain ts0 gd0 where item: "item = (ts0, gd0)" by (cases item)
  from Cons.prems have
    "days_loop to_int to_date g ((ts0, gd0) # before @ (ts, JObj gd) # after) ds = Inr ds'"
    by (simp add: item)
  then show ?case
    by (cases rule: days_loop_step) (use Cons.IH in blast)+
qed

text \<open>
  C10.  Take a timestamp of the data that holds the group, and let no later timestamp with
  the same date hold the group.  Then, whenever the function returns, the day it returns
  for that date is the one built from the hours of that timestamp alone, starting from the
  empty day: its keys are exactly the labels of those hours, whatever earlier timestamps
  of the same date stored.
\<close>

theorem last_timestamp_wins:
  assumes "format_schedule_for_group to_int to_date fact_data g = Inr r"
    and "map_of fact_data ''data'' = Some (JObj (before @ (ts, JObj gd) # after))"
    and "to_int ts = Some n" and "to_date n = Some date"
    and "map_of gd g = Some (JObj hours)"
    and "\<forall>(ts', gd') \<in> set after. \<forall>n'. to_int ts' = Some n' \<longrightarrow> to_date n' = Some date
           \<longrightarrow> py_in g gd' = Inr False"
  shows "\<exists>day. map_of (days r) date = Some day
           \<and> fill_day to_int hours [] = Inr day
           \<and> fst ` set day = {time_range h |h hour_str status.
                 (hour_str, status) \<in> set hours \<and> to_int hour_str = Some h}"
  using assms(1)
proof (cases rule: format_schedule_cases)
  case no_data
  with assms(2) show ?thesis by simp
next
  case (data items ds)
  with assms(2) have "days_loop to_int to_date g (before @ (ts, JObj gd) # after) [] = Inr ds"
    by simp
  from days_loop_last [OF this assms(3-6)] obtain day where
    day: "fill_day to_int hours [] = Inr day" "map_of ds date = Some day"
    by blast
  from fill_day_keys [OF day(1)] day data(3) show ?thesis by simp
qed

theorem last_timestamp_wins_witness:
  "format_schedule_for_group int_of_digits sample_date
     [(''data'', JObj [(''1700000000'', JObj [(''GPV1.1'', JObj [(''1'', JStr ''yes'')])]),
                       (''1700000060'', JObj [(''GPV1.1'', JObj [(''2'', JStr ''no'')])])])]
     ''GPV1.1''
     = Inr \<lparr>group = ''GPV1.1'',
            days = [(''2023-11-14'', [(''01:00-02:00'', JStr ''light_off'')])]\<rparr>
   \<and> fill_day int_of_digits [(''2'', JStr ''no'')] [] = Inr [(''01:00-02:00'', JStr ''light_off'')]"
proof -
  let ?doc = "[(''data'', JObj [(''1700000000'', JObj [(''GPV1.1'', JObj [(''1'', JStr ''yes'')])]),
                       (''1700000060'', JObj [(''GPV1.1'', JObj [(''2'', JStr ''no'')])])])]"
  have run: "format_schedule_for_group int_of_digits sample_date ?doc ''GPV1.1''
      = Inr \<lparr>group = ''GPV1.1'',
             days = [(''2023-11-14'', [(''01:00-02:00'', JStr ''light_off'')])]\<rparr>"
    by (simp add: format_schedule_for_group_def sample_host)
  have data: "map_of ?doc ''data''
      = Some (JObj ([(''1700000000'', JObj [(''GPV1.1'', JObj [(''1'', JStr ''yes'')])])]
           @ (''1700000060'', JObj [(''GPV1.1'', JObj [(''2'', JStr ''no'')])]) # []))"
    by simp
  have look: "map_of [(''GPV1.1'', JObj [(''2'', JStr ''no'')])] ''GPV1.1''
      = Some (JObj [(''2'', JStr ''no'')])"
    by simp
  have later: "\<forall>(ts', gd') \<in> set []. \<forall>n'. int_of_digits ts' = Some n' \<longrightarrow>
      sample_date n' = Some ''2023-11-14'' \<longrightarrow> py_in ''GPV1.1'' gd' = Inr False"
    by simp
  from last_timestamp_wins [OF run data int_of_digits_sample(4) sample_date_sample(2) look later]
  obtain day where "map_of [(''2023-11-14'', [(''01:00-02:00'', JStr ''light_off'')])]
      ''2023-11-14'' = Some day" "fill_day int_of_digits [(''2'', JStr ''no'')] [] = Inr day"
    by auto
  then have "fill_day int_of_digits [(''2'', JStr ''no'')] []
      = Inr [(''01:00-02:00'', JStr ''light_off'')]"
    by simp
  with run show ?thesis by simp
qed

section \<open>Claim C3: when the extraction of the fact block fails\<close>

lemma find_sub_before:
  "find_sub sub s = Some k \<Longrightarrow> \<forall>j<k. \<not> prefix sub (drop j s)"
proof (induction s arbitrary: k)
  case Nil
  then show ?case by (simp split: if_splits)
next
  case (Cons c cs)
  show ?case
  proof (cases "prefix sub (c # cs)")
    case True
    with Cons.prems show ?thesis by simp
  next
    case False
    with Cons.prems obtain k' where k': "find_sub sub cs = Some k'" "k = Suc k'"
      by auto
    show ?thesis
    proof (intro allI impI)
      fix j assume j: "j < k"
      show "\<not> prefix sub (drop j (c # cs))"
      proof (cases j)
        case 0
        with False show ?thesis by simp
      next
        case (Suc j')
        with j k' have "j' < k'" by simp
        with Cons.IH [OF k'(1)] have "\<not> prefix sub (drop j' cs)" by blast
        with Suc show ?thesis by simp
      qed
    qed
  qed
qed

lemma extract_fact_absent:
  "extract_fact html = Inl e \<longleftrightarrow>
   e = FactNotFound \<and> \<not> (\<exists>pre post. html = pre @ fact_marker @ post)"
  using py_find_0_absent [of html fact_marker]
  by (auto simp: extract_fact_def Let_def)

lemma extract_fact_never_closes:
  assumes html: "html = pre @ fact_marker @ rest"
    and first: "\<forall>j<length pre. \<not> prefix fact_marker (drop j html)"
    and never: "\<forall>n. \<not> closes_at (''{'' @ rest) n"
  shows "extract_fact html = Inr []"
proof -
  let ?stem = "''DisconSchedule.fact = ''"
  let ?j = "int (length pre + length ?stem)"
  have h: "html = pre @ (?stem @ ''{'') @ rest"
    using html by (simp add: fact_marker_def)
  have f: "\<forall>j<length pre. \<not> prefix (?stem @ ''{'') (drop j html)"
    using first by (simp add: fact_marker_def)
  have s: "CHR ''{'' \<notin> set ?stem" by simp
  note loc = locate_object [OF h f s]
  have start: "py_find html fact_marker 0 = int (length pre)"
    using loc(1) by (simp add: fact_marker_def)
  have scan: "scan_braces (py_slice_from html ?j) ?j 0 = None"
    unfolding loc(3) using never never_closes_scan [of "''{'' @ rest" ?j] by simp
  have "py_slice html ?j (?j + int 0) = take 0 (CHR ''{'' # rest)"
    by (rule loc(4))
  then have slice: "py_slice html ?j ?j = []" by simp
  show ?thesis
    unfolding extract_fact_def Let_def start loc(2) scan using slice by simp
qed

text \<open>A page whose fact object is never closed.\<close>

lemma unclosed_sample:
  \<open>extract_fact ''<p>DisconSchedule.fact = {"a":{"b":1};</p>'' = Inr []\<close>
proof -
  have h: \<open>''<p>DisconSchedule.fact = {"a":{"b":1};</p>''
      = ''<p>'' @ fact_marker @ ''"a":{"b":1};</p>''\<close>
    by (simp add: fact_marker_def)
  have \<open>find_sub fact_marker ''<p>DisconSchedule.fact = {"a":{"b":1};</p>''
      = Some (length ''<p>'')\<close>
    by (simp add: fact_marker_def)
  then have first: \<open>\<forall>j<length ''<p>''.
      \<not> prefix fact_marker (drop j ''<p>DisconSchedule.fact = {"a":{"b":1};</p>'')\<close>
    by (rule find_sub_before)
  have \<open>scan_braces (''{'' @ ''"a":{"b":1};</p>'') 0 0 = None\<close>
    by simp
  then have never: \<open>\<forall>n. \<not> closes_at (''{'' @ ''"a":{"b":1};</p>'') n\<close>
    by (simp only: never_closes_scan [of _ 0])
  show ?thesis
    by (rule extract_fact_never_closes [OF h first never])
qed

lemma fixture_loads_empty: "fixture_loads [] = None"
  by (simp add: fixture_loads_def fixture_fact_text_def)

text \<open>
  C3, as the code has it.  The extraction raises exactly when the marker is absent, and
  then it is the exception of line 55.  When the marker is there and the counter never
  returns to zero, the extraction raises nothing: the extracted text is empty, and the
  run fails one step later, in \<^verbatim>\<open>json.loads\<close>, whenever that rejects the empty text.
\<close>

theorem extract_fact_failure:
  "(extract_fact html = Inl e \<longleftrightarrow>
       e = FactNotFound \<and> \<not> (\<exists>pre post. html = pre @ fact_marker @ post))
   \<and> (html = pre @ fact_marker @ rest
        \<and> (\<forall>j<length pre. \<not> prefix fact_marker (drop j html))
        \<and> (\<forall>n. \<not> closes_at (''{'' @ rest) n)
      \<longrightarrow> extract_fact html = Inr []
          \<and> (loads [] = None \<longrightarrow> parse_schedule loads now html = Inl JSONDecodeError))"
proof (intro conjI impI)
  show "extract_fact html = Inl e \<longleftrightarrow>
      e = FactNotFound \<and> \<not> (\<exists>pre post. html = pre @ fact_marker @ post)"
    by (rule extract_fact_absent)
next
  assume a: "html = pre @ fact_marker @ rest
      \<and> (\<forall>j<length pre. \<not> prefix fact_marker (drop j html))
      \<and> (\<forall>n. \<not> closes_at (''{'' @ rest) n)"
  then show empty: "extract_fact html = Inr []"
    using extract_fact_never_closes [of html pre rest] by blast
  assume "loads [] = None"
  with empty show "parse_schedule loads now html = Inl JSONDecodeError"
    by (simp add: parse_schedule_def)
qed

theorem extract_fact_failure_witness:
  \<open>extract_fact ''<p>no schedule</p>'' = Inl FactNotFound
   \<and> extract_fact ''<p>DisconSchedule.fact = {"a":{"b":1};</p>'' = Inr []
   \<and> parse_schedule fixture_loads ''2023-11-14T22:13:20''
        ''<p>DisconSchedule.fact = {"a":{"b":1};</p>'' = Inl JSONDecodeError\<close>
proof -
  have \<open>\<not> str_contains fact_marker ''<p>no schedule</p>''\<close>
    by (simp add: fact_marker_def)
  then have absent: \<open>\<not> (\<exists>pre post. ''<p>no schedule</p>'' = pre @ fact_marker @ post)\<close>
    unfolding str_contains_iff .
  have 1: \<open>extract_fact ''<p>no schedule</p>'' = Inl FactNotFound\<close>
    using extract_fact_failure [of "''<p>no schedule</p>''" FactNotFound "[]" "[]"
        fixture_loads "[]"] absent
    by simp
  have h: \<open>''<p>DisconSchedule.fact = {"a":{"b":1};</p>''
      = ''<p>'' @ fact_marker @ ''"a":{"b":1};</p>''\<close>
    by (simp add: fact_marker_def)
  have \<open>find_sub fact_marker ''<p>DisconSchedule.fact = {"a":{"b":1};</p>''
      = Some (length ''<p>'')\<close>
    by (simp add: fact_marker_def)
  then have first: \<open>\<forall>j<length ''<p>''.
      \<not> prefix fact_marker (drop j ''<p>DisconSchedule.fact = {"a":{"b":1};</p>'')\<close>
    by (rule find_sub_before)
  have \<open>scan_braces (''{'' @ ''"a":{"b":1};</p>'') 0 0 = None\<close>
    by simp
  then have never: \<open>\<forall>n. \<not> closes_at (''{'' @ ''"a":{"b":1};</p>'') n\<close>
    by (simp only: never_closes_scan [of _ 0])
  have 2: \<open>extract_fact ''<p>DisconSchedule.fact = {"a":{"b":1};</p>'' = Inr []
      \<and> parse_schedule fixture_loads ''2023-11-14T22:13:20''
          ''<p>DisconSchedule.fact = {"a":{"b":1};</p>'' = Inl JSONDecodeError\<close>
    using extract_fact_failure [of \<open>''<p>DisconSchedule.fact = {"a":{"b":1};</p>''\<close> FactNotFound
        "''<p>''" \<open>''"a":{"b":1};</p>''\<close> fixture_loads "''2023-11-14T22:13:20''"]
      h first never fixture_loads_empty
    by blast
  from 1 2 show ?thesis by blast
qed

text \<open>
  The claim as the specification states it fails on this page: no balanced object follows
  the marker, yet the extraction returns (the empty text), and what fails is the decoding.
\<close>

theorem extract_fact_unclosed_counterexample:
  \<open>extract_fact ''<p>DisconSchedule.fact = {"a":{"b":1};</p>'' = Inr []
   \<and> parse_schedule fixture_loads ''2023-11-14T22:13:20''
        ''<p>DisconSchedule.fact = {"a":{"b":1};</p>'' = Inl JSONDecodeError\<close>
  by (simp add: parse_schedule_def unclosed_sample fixture_loads_empty)

section \<open>Claim C5: a preset block that cannot be extracted\<close>

lemma extract_preset_absent:
  "\<not> (\<exists>pre post. html = pre @ preset_marker @ post) \<Longrightarrow>
   extract_preset loads html = Inr (JObj [])"
  using py_find_0_absent [of html preset_marker]
  by (simp add: extract_preset_def Let_def)

lemma extract_preset_never_closes:
  assumes html: "html = pre @ preset_marker @ rest"
    and first: "\<forall>j<length pre. \<not> prefix preset_marker (drop j html)"
    and never: "\<forall>n. \<not> closes_at (''{'' @ rest) n"
  shows "extract_preset loads html = Inr (JObj [])"
proof -
  let ?stem = "''DisconSchedule.preset = ''"
  let ?j = "int (length pre + length ?stem)"
  have h: "html = pre @ (?stem @ ''{'') @ rest"
    using html by (simp add: preset_marker_def)
  have f: "\<forall>j<length pre. \<not> prefix (?stem @ ''{'') (drop j html)"
    using first by (simp add: preset_marker_def)
  have s: "CHR ''{'' \<notin> set ?stem" by simp
  note loc = locate_object [OF h f s]
  have start: "py_find html preset_marker 0 = int (length pre)"
    using loc(1) by (simp add: preset_marker_def)
  have scan: "scan_braces (py_slice_from html ?j) ?j 0 = None"
    unfolding loc(3) using never never_closes_scan [of "''{'' @ rest" ?j] by simp
  show ?thesis
    unfolding extract_preset_def Let_def start loc(2) scan by simp
qed

text \<open>
  C5.  When the preset marker is absent, or is there but the counter never returns to zero
  after it, the preset is the empty object and \<^verbatim>\<open>parse_schedule\<close> ends as the fact block
  alone decides: the preset block adds no exception.
\<close>

theorem preset_failure_recovered:
  assumes "\<not> (\<exists>pre post. html = pre @ preset_marker @ post)
         \<or> (\<exists>pre rest. html = pre @ preset_marker @ rest
              \<and> (\<forall>j<length pre. \<not> prefix preset_marker (drop j html))
              \<and> (\<forall>n. \<not> closes_at (''{'' @ rest) n))"
  shows "extract_preset loads html = Inr (JObj [])
       \<and> parse_schedule loads now html =
           (case extract_fact html of
              Inl e \<Rightarrow> Inl e
            | Inr fact_json_str \<Rightarrow>
                (case loads fact_json_str of
                   None \<Rightarrow> Inl JSONDecodeError
                 | Some fact_data \<Rightarrow>
                     Inr \<lparr>fact = fact_data, preset = JObj [], fetched_at = now\<rparr>))"
proof -
  have "extract_preset loads html = Inr (JObj [])"
    using assms extract_preset_absent extract_preset_never_closes by blast
  then show ?thesis
    by (simp add: parse_schedule_def split: sum.splits option.splits)
qed

text \<open>A page with the fact block of the fixture and a preset block that is never closed.\<close>

lemma fixture_body_balanced:
  \<open>balanced_body ''"update":"12:00","data":{"1700000000":{"GPV1.1":{"1":"yes","2":"no"}}}''\<close>
proof -
  have 1: \<open>balanced_body (''{'' @ ''"1":"yes","2":"no"'' @ ''}'')\<close>
    by (rule balanced_body_braces) (simp add: balanced_body_plain)
  have 2: \<open>balanced_body (''{'' @ (''"GPV1.1":'' @ ''{'' @ ''"1":"yes","2":"no"'' @ ''}'') @ ''}'')\<close>
    by (rule balanced_body_braces, rule balanced_body_append)
       (simp add: balanced_body_plain, rule 1)
  have 3: \<open>balanced_body (''{'' @ (''"1700000000":''
      @ ''{'' @ (''"GPV1.1":'' @ ''{'' @ ''"1":"yes","2":"no"'' @ ''}'') @ ''}'') @ ''}'')\<close>
    by (rule balanced_body_braces, rule balanced_body_append)
       (simp add: balanced_body_plain, rule 2)
  have \<open>balanced_body (''"update":"12:00","data":'' @ (''{'' @ (''"1700000000":''
      @ ''{'' @ (''"GPV1.1":'' @ ''{'' @ ''"1":"yes","2":"no"'' @ ''}'') @ ''}'') @ ''}''))\<close>
    by (rule balanced_body_append) (simp add: balanced_body_plain, rule 3)
  then show ?thesis by simp
qed

lemma fixture_fact_extracted:
  \<open>extract_fact (''<p>DisconSchedule.fact = {"update":"12:00","data":{"1700000000":{"GPV1.1":{"1":"yes","2":"no"}}}}; '' @ trailing)
   = Inr fixture_fact_text\<close>
proof -
  let ?body = \<open>''"update":"12:00","data":{"1700000000":{"GPV1.1":{"1":"yes","2":"no"}}}''\<close>
  let ?html = \<open>''<p>DisconSchedule.fact = {"update":"12:00","data":{"1700000000":{"GPV1.1":{"1":"yes","2":"no"}}}}; '' @ trailing\<close>
  have h: "?html = ''<p>'' @ fact_marker @ ?body @ ''}'' @ (''; '' @ trailing)"
    by (simp add: fact_marker_def)
  have "find_sub fact_marker ?html = Some (length ''<p>'')"
    by (simp add: fact_marker_def)
  then have first: "\<forall>j<length ''<p>''. \<not> prefix fact_marker (drop j ?html)"
    by (rule find_sub_before)
  show ?thesis
    using extract_fact_object [OF h first fixture_body_balanced]
    by (simp add: fixture_fact_text_def)
qed

lemma fixture_loads_fact: "fixture_loads fixture_fact_text = Some (JObj fixture_fact)"
  by (simp add: fixture_loads_def)

theorem preset_failure_recovered_witness:
  \<open>extract_preset fixture_loads ''<p>DisconSchedule.preset = {"a":{</p>'' = Inr (JObj [])
   \<and> parse_schedule fixture_loads ''2023-11-14T22:13:20''
        ''<p>DisconSchedule.fact = {"update":"12:00","data":{"1700000000":{"GPV1.1":{"1":"yes","2":"no"}}}}; </p>''
      = Inr \<lparr>fact = JObj fixture_fact, preset = JObj [], fetched_at = ''2023-11-14T22:13:20''\<rparr>\<close>
proof -
  have h: \<open>''<p>DisconSchedule.preset = {"a":{</p>''
      = ''<p>'' @ preset_marker @ ''"a":{</p>''\<close>
    by (simp add: preset_marker_def)
  have \<open>find_sub preset_marker ''<p>DisconSchedule.preset = {"a":{</p>''
      = Some (length ''<p>'')\<close>
    by (simp add: preset_marker_def)
  then have first: \<open>\<forall>j<length ''<p>''.
      \<not> prefix preset_marker (drop j ''<p>DisconSchedule.preset = {"a":{</p>'')\<close>
    by (rule find_sub_before)
  have \<open>scan_braces (''{'' @ ''"a":{</p>'') 0 0 = None\<close>
    by simp
  then have never: \<open>\<forall>n. \<not> closes_at (''{'' @ ''"a":{</p>'') n\<close>
    by (simp only: never_closes_scan [of _ 0])
  have unclosed: \<open>\<exists>pre rest. ''<p>DisconSchedule.preset = {"a":{</p>'' = pre @ preset_marker @ rest
      \<and> (\<forall>j<length pre. \<not> prefix preset_marker
             (drop j ''<p>DisconSchedule.preset = {"a":{</p>''))
      \<and> (\<forall>n. \<not> closes_at (''{'' @ rest) n)\<close>
    using h first never by blast
  have 1: \<open>extract_preset fixture_loads ''<p>DisconSchedule.preset = {"a":{</p>''
      = Inr (JObj [])\<close>
    using preset_failure_recovered [OF disjI2, OF unclosed, of fixture_loads "[]"]
    by simp
  let ?page = \<open>''<p>DisconSchedule.fact = {"update":"12:00","data":{"1700000000":{"GPV1.1":{"1":"yes","2":"no"}}}}; </p>''\<close>
  have \<open>\<not> str_contains preset_marker ?page\<close>
    by (simp add: preset_marker_def)
  then have absent: \<open>\<not> (\<exists>pre post. ?page = pre @ preset_marker @ post)\<close>
    unfolding str_contains_iff .
  have fact: \<open>extract_fact ?page = Inr fixture_fact_text\<close>
    using fixture_fact_extracted [of "''</p>''"] by simp
  have 2: \<open>parse_schedule fixture_loads ''2023-11-14T22:13:20'' ?page
      = Inr \<lparr>fact = JObj fixture_fact, preset = JObj [],
             fetched_at = ''2023-11-14T22:13:20''\<rparr>\<close>
    using preset_failure_recovered [OF disjI1, OF absent, of fixture_loads
        "''2023-11-14T22:13:20''"]
    by (simp add: fact fixture_loads_fact)
  from 1 2 show ?thesis by simp
qed

section \<open>Claim C7: a run writes all or nothing\<close>

lemma str_contains_replicate:
  "sub \<noteq> [] \<Longrightarrow> hd sub \<noteq> c \<Longrightarrow> \<not> str_contains sub (replicate n c)"
  by (induction n) (cases sub; simp)+

lemma fixture_page_fetched:
  "fetch_dtek_page (Inr \<lparr>status_code = 200, resp_text = fixture_page\<rparr>) = Inr fixture_page"
  by (simp add: fetch_dtek_page_def fixture_page_def)

lemma bad_preset_page_fetched:
  "fetch_dtek_page (Inr \<lparr>status_code = 200, resp_text = bad_preset_page\<rparr>)
   = Inr bad_preset_page"
  by (simp add: fetch_dtek_page_def bad_preset_page_def)

lemma no_fact_page_fetched:
  "fetch_dtek_page (Inr \<lparr>status_code = 200, resp_text = no_fact_page\<rparr>) = Inr no_fact_page"
  by (simp add: fetch_dtek_page_def no_fact_page_def)

lemma fixture_page_fact: "extract_fact fixture_page = Inr fixture_fact_text"
  unfolding fixture_page_def by (rule fixture_fact_extracted)

lemma bad_preset_page_fact: "extract_fact bad_preset_page = Inr fixture_fact_text"
  unfolding bad_preset_page_def by (rule fixture_fact_extracted)

lemma no_fact_page_fact: "extract_fact no_fact_page = Inl FactNotFound"
proof -
  have "\<not> str_contains fact_marker no_fact_page"
    by (simp add: no_fact_page_def fact_marker_def str_contains_replicate)
  then have "\<not> (\<exists>pre post. no_fact_page = pre @ fact_marker @ post)"
    unfolding str_contains_iff .
  then show ?thesis by (simp add: extract_fact_absent)
qed

lemma fixture_page_preset: "extract_preset loads fixture_page = Inr (JObj [])"
proof -
  have "\<not> str_contains preset_marker fixture_page"
    by (simp add: fixture_page_def preset_marker_def str_contains_replicate)
  then have "\<not> (\<exists>pre post. fixture_page = pre @ preset_marker @ post)"
    unfolding str_contains_iff .
  then show ?thesis by (rule extract_preset_absent)
qed

lemma bad_preset_page_preset:
  "extract_preset fixture_loads bad_preset_page = Inl JSONDecodeError"
  by (simp add: extract_preset_def bad_preset_page_def preset_marker_def py_find_def
      py_index_def py_slice_from_def py_slice_def fixture_loads_def fixture_fact_text_def)

text \<open>
  C7.  When fetching fails, when the fact block is not found, when \<^verbatim>\<open>json.loads\<close> rejects
  the fact block, or when it rejects the preset block, the run returns \<^verbatim>\<open>False\<close> and
  \<^verbatim>\<open>json.dump\<close> is never called.  Whenever \<^verbatim>\<open>json.dump\<close> is called, the page was fetched,
  \<^verbatim>\<open>parse_schedule\<close> returned, and the loop over all the configured groups returned the
  groups of the document that is written.  A run that returns \<^verbatim>\<open>True\<close> has written.
\<close>

theorem main_all_or_nothing:
  "(\<forall>e. fetch_dtek_page (requests_get w) = Inl e
        \<longrightarrow> main w = \<lparr>returned = False, dumped = None\<rparr>)
   \<and> (\<forall>html e. fetch_dtek_page (requests_get w) = Inr html \<and> extract_fact html = Inl e
        \<longrightarrow> main w = \<lparr>returned = False, dumped = None\<rparr>)
   \<and> (\<forall>html fact_json_str. fetch_dtek_page (requests_get w) = Inr html
          \<and> extract_fact html = Inr fact_json_str \<and> json_loads w fact_json_str = None
        \<longrightarrow> main w = \<lparr>returned = False, dumped = None\<rparr>)
   \<and> (\<forall>html e. fetch_dtek_page (requests_get w) = Inr html
          \<and> extract_preset (json_loads w) html = Inl e
        \<longrightarrow> main w = \<lparr>returned = False, dumped = None\<rparr>)
   \<and> (\<forall>doc. dumped (main w) = Some doc
        \<longrightarrow> (\<exists>html raw fact_data.
               fetch_dtek_page (requests_get w) = Inr html
             \<and> parse_schedule (json_loads w) (now_isoformat w) html = Inr raw
             \<and> fact raw = JObj fact_data
             \<and> groups_loop (py_int w) (local_date w) fact_data GROUPS_TO_PARSE []
                 = Inr (groups doc)))
   \<and> (returned (main w) \<longrightarrow> dumped (main w) \<noteq> None)"
proof (intro conjI allI impI)
  fix e assume "fetch_dtek_page (requests_get w) = Inl e"
  then show "main w = \<lparr>returned = False, dumped = None\<rparr>"
    by (simp add: main_def failed_run_def)
next
  fix html e
  assume "fetch_dtek_page (requests_get w) = Inr html \<and> extract_fact html = Inl e"
  then show "main w = \<lparr>returned = False, dumped = None\<rparr>"
    by (simp add: main_def failed_run_def parse_schedule_def)
next
  fix html fact_json_str
  assume "fetch_dtek_page (requests_get w) = Inr html
      \<and> extract_fact html = Inr fact_json_str \<and> json_loads w fact_json_str = None"
  then show "main w = \<lparr>returned = False, dumped = None\<rparr>"
    by (simp add: main_def failed_run_def parse_schedule_def)
next
  fix html e
  assume "fetch_dtek_page (requests_get w) = Inr html
      \<and> extract_preset (json_loads w) html = Inl e"
  then show "main w = \<lparr>returned = False, dumped = None\<rparr>"
    by (simp add: main_def failed_run_def parse_schedule_def split: sum.splits option.splits)
next
  fix doc assume doc: "dumped (main w) = Some doc"
  show "\<exists>html raw fact_data.
      fetch_dtek_page (requests_get w) = Inr html
    \<and> parse_schedule (json_loads w) (now_isoformat w) html = Inr raw
    \<and> fact raw = JObj fact_data
    \<and> groups_loop (py_int w) (local_date w) fact_data GROUPS_TO_PARSE [] = Inr (groups doc)"
  proof (cases "fetch_dtek_page (requests_get w)")
    case (Inl e)
    with doc show ?thesis by (simp add: main_def failed_run_def)
  next
    case html: (Inr html)
    show ?thesis
    proof (cases "parse_schedule (json_loads w) (now_isoformat w) html")
      case (Inl e)
      with doc html show ?thesis by (simp add: main_def failed_run_def)
    next
      case raw: (Inr raw)
      show ?thesis
      proof (cases "\<exists>fact_data. fact raw = JObj fact_data")
        case False
        with doc html raw show ?thesis
          by (cases "fact raw") (simp_all add: main_def failed_run_def)
      next
        case True
        then obtain fact_data where fd: "fact raw = JObj fact_data" by blast
        show ?thesis
        proof (cases "groups_loop (py_int w) (local_date w) fact_data GROUPS_TO_PARSE []")
          case (Inl e)
          with doc html raw fd show ?thesis by (simp add: main_def failed_run_def)
        next
          case (Inr gs)
          with doc html raw fd have "groups doc = gs"
            by (auto simp: main_def Let_def split: if_splits)
          with html raw fd Inr show ?thesis by simp
        qed
      qed
    qed
  qed
next
  assume "returned (main w)"
  then show "dumped (main w) \<noteq> None"
    by (auto simp: main_def failed_run_def Let_def
             split: sum.splits json.splits if_splits)
qed

theorem main_all_or_nothing_witness:
  "main (sample_world (Inr \<lparr>status_code = 503, resp_text = []\<rparr>) fixture_loads)
     = \<lparr>returned = False, dumped = None\<rparr>
   \<and> main (sample_world (Inr \<lparr>status_code = 200, resp_text = no_fact_page\<rparr>) fixture_loads)
     = \<lparr>returned = False, dumped = None\<rparr>
   \<and> main (sample_world (Inr \<lparr>status_code = 200, resp_text = fixture_page\<rparr>) (\<lambda>s. None))
     = \<lparr>returned = False, dumped = None\<rparr>
   \<and> main (sample_world (Inr \<lparr>status_code = 200, resp_text = bad_preset_page\<rparr>) fixture_loads)
     = \<lparr>returned = False, dumped = None\<rparr>
   \<and> main (sample_world (Inr \<lparr>status_code = 200, resp_text = fixture_page\<rparr>) fixture_loads)
     = \<lparr>returned = True,
        dumped = Some \<lparr>out_fetched_at = ''2023-11-14T22:13:20'', update_time = JStr ''12:00'',
          groups = [(''GPV1.1'', [(''2023-11-14'',
            [(''00:00-01:00'', JStr ''light_on''), (''01:00-02:00'', JStr ''light_off'')])])]\<rparr>\<rparr>
   \<and> groups_loop int_of_digits sample_date fixture_fact GROUPS_TO_PARSE []
     = Inr [(''GPV1.1'', [(''2023-11-14'',
            [(''00:00-01:00'', JStr ''light_on''), (''01:00-02:00'', JStr ''light_off'')])])]"
proof -
  let ?down = "sample_world (Inr \<lparr>status_code = 503, resp_text = []\<rparr>) fixture_loads"
  let ?nofact = "sample_world (Inr \<lparr>status_code = 200, resp_text = no_fact_page\<rparr>) fixture_loads"
  let ?nojson = "sample_world (Inr \<lparr>status_code = 200, resp_text = fixture_page\<rparr>) (\<lambda>s. None)"
  let ?badpreset =
    "sample_world (Inr \<lparr>status_code = 200, resp_text = bad_preset_page\<rparr>) fixture_loads"
  let ?good = "sample_world (Inr \<lparr>status_code = 200, resp_text = fixture_page\<rparr>) fixture_loads"
  let ?doc = "\<lparr>out_fetched_at = ''2023-11-14T22:13:20'', update_time = JStr ''12:00'',
      groups = [(''GPV1.1'', [(''2023-11-14'',
        [(''00:00-01:00'', JStr ''light_on''), (''01:00-02:00'', JStr ''light_off'')])])]\<rparr>"
  have "fetch_dtek_page (requests_get ?down) = Inl (HTTPError 503)"
    by (simp add: sample_world_def fetch_dtek_page_def)
  with main_all_or_nothing [of ?down]
  have 1: "main ?down = \<lparr>returned = False, dumped = None\<rparr>" by blast
  have "fetch_dtek_page (requests_get ?nofact) = Inr no_fact_page
      \<and> extract_fact no_fact_page = Inl FactNotFound"
    by (simp add: sample_world_def no_fact_page_fetched no_fact_page_fact)
  with main_all_or_nothing [of ?nofact]
  have 2: "main ?nofact = \<lparr>returned = False, dumped = None\<rparr>" by blast
  have "fetch_dtek_page (requests_get ?nojson) = Inr fixture_page
      \<and> extract_fact fixture_page = Inr fixture_fact_text
      \<and> json_loads ?nojson fixture_fact_text = None"
    by (simp add: sample_world_def fixture_page_fetched fixture_page_fact)
  with main_all_or_nothing [of ?nojson]
  have 3: "main ?nojson = \<lparr>returned = False, dumped = None\<rparr>" by blast
  have "fetch_dtek_page (requests_get ?badpreset) = Inr bad_preset_page
      \<and> extract_preset (json_loads ?badpreset) bad_preset_page = Inl JSONDecodeError"
    by (simp add: sample_world_def bad_preset_page_fetched bad_preset_page_preset)
  with main_all_or_nothing [of ?badpreset]
  have 4: "main ?badpreset = \<lparr>returned = False, dumped = None\<rparr>" by blast
  have parsed: "parse_schedule fixture_loads ''2023-11-14T22:13:20'' fixture_page
      = Inr \<lparr>fact = JObj fixture_fact, preset = JObj [],
             fetched_at = ''2023-11-14T22:13:20''\<rparr>"
    by (simp add: parse_schedule_def fixture_page_fact fixture_loads_fact fixture_page_preset)
  have 5: "main ?good = \<lparr>returned = True, dumped = Some ?doc\<rparr>"
    by (simp add: main_def sample_world_def fixture_page_fetched parsed fixture_groups)
       (simp add: fixture_fact_def)
  then have "dumped (main ?good) = Some ?doc" by simp
  with main_all_or_nothing [of ?good]
  obtain html raw fact_data where
    r: "fetch_dtek_page (requests_get ?good) = Inr html"
      "parse_schedule (json_loads ?good) (now_isoformat ?good) html = Inr raw"
      "fact raw = JObj fact_data"
      "groups_loop (py_int ?good) (local_date ?good) fact_data GROUPS_TO_PARSE []
         = Inr (groups ?doc)"
    by blast
  from r(1) have "html = fixture_page"
    by (simp add: sample_world_def fixture_page_fetched)
  with r(2) parsed have "raw = \<lparr>fact = JObj fixture_fact, preset = JObj [],
      fetched_at = ''2023-11-14T22:13:20''\<rparr>"
    by (simp add: sample_world_def)
  with r(3) have "fact_data = fixture_fact" by simp
  with r(4) have 6: "groups_loop int_of_digits sample_date fixture_fact GROUPS_TO_PARSE []
      = Inr [(''GPV1.1'', [(''2023-11-14'',
          [(''00:00-01:00'', JStr ''light_on''), (''01:00-02:00'', JStr ''light_off'')])])]"
    by (simp add: sample_world_def)
  from 1 2 3 4 5 6 show ?thesis by simp
qed

end
